theory Spec2Isabelle
  imports Complex_Main "HOL-Library.Word" "HOL-Library.Sublist"
begin

unbundle bit_operations_syntax

section \<open>Data model (types.ts)\<close>

text \<open>
  The interfaces of \<^verbatim>\<open>types.ts\<close>. JavaScript strings are modelled as \<^typ>\<open>string\<close>,
  the millisecond clock value \<^verbatim>\<open>Date.now()\<close> as an \<^typ>\<open>int\<close>. The field \<^verbatim>\<open>id\<close> of
  \<^verbatim>\<open>HistoryItem\<close> is called \<open>item_id\<close>, since \<open>id\<close> is the identity function of HOL.
\<close>

record GoldenResult =
  originalTranslation :: string
  goldenPrompt :: string
  category :: string
  reasoning :: string

record GroundingSource =
  uri :: string
  title :: string

record HistoryItem =
  item_id :: string
  originalInput :: string
  result :: GoldenResult
  timestamp :: int

section \<open>GoldenCard: enhancement chips\<close>

definition ENHANCEMENT_CHIPS :: "(string \<times> string) list" where
  "ENHANCEMENT_CHIPS =
    [(''4K Resolution'', '' in 4K resolution, highly detailed''),
     (''Photorealistic'', '', photorealistic style, cinematic lighting''),
     (''Professional Tone'', '' (rewritten in a formal, professional tone)''),
     (''Cyberpunk'', '', cyberpunk aesthetic, neon lights, high contrast''),
     (''JSON Format'', '' Format output as JSON.''),
     (''Minimalist'', '', minimalist style, clean lines, white background'')]"

text \<open>
  \<^verbatim>\<open>String.prototype.endsWith\<close> with one argument: the search string has to fit into the
  receiver and to equal its last characters.
\<close>

definition endsWith :: "string \<Rightarrow> string \<Rightarrow> bool" where
  "endsWith s t = (length t \<le> length s \<and> drop (length s - length t) s = t)"

text \<open>
  \<^verbatim>\<open>handleEnhance\<close>: the updater given to \<^verbatim>\<open>setCurrentPrompt\<close>, as a function from the
  previous prompt to the next one.
\<close>

definition handleEnhance :: "string \<Rightarrow> string \<Rightarrow> string" where
  "handleEnhance textToAdd prev = (if endsWith prev textToAdd then prev else prev @ textToAdd)"

section \<open>App: history\<close>

text \<open>
  \<^verbatim>\<open>handleDeleteHistoryItem\<close>: the updater given to \<^verbatim>\<open>setHistory\<close>;
  \<^verbatim>\<open>Array.prototype.filter\<close> keeps the elements for which the callback is true, in order.
\<close>

definition handleDeleteHistoryItem :: "string \<Rightarrow> HistoryItem list \<Rightarrow> HistoryItem list" where
  "handleDeleteHistoryItem i prev = filter (\<lambda>item. item_id item \<noteq> i) prev"

section \<open>App: the live-session message handler\<close>

text \<open>
  The part of \<^verbatim>\<open>LiveServerMessage\<close> the handler reads. Every level is optional
  (\<^verbatim>\<open>message.serverContent?.inputTranscription\<close>, then \<^verbatim>\<open>.text\<close>, here
  \<open>transcript_text\<close>).
\<close>

record Transcription =
  transcript_text :: "string option"

record LiveServerContent =
  inputTranscription :: "Transcription option"

record LiveServerMessage =
  serverContent :: "LiveServerContent option"

text \<open>
  \<^verbatim>\<open>onmessage\<close>, as a function on the input buffer \<^verbatim>\<open>inputText\<close>: the state changes only
  through \<^verbatim>\<open>setInputText(prev => prev + text)\<close>, and only when the text is truthy (a
  non-empty string).
\<close>

definition onmessage :: "LiveServerMessage \<Rightarrow> string \<Rightarrow> string" where
  "onmessage message inputText =
    (case serverContent message of
       None \<Rightarrow> inputText
     | Some sc \<Rightarrow>
        (case inputTranscription sc of
           None \<Rightarrow> inputText
         | Some tr \<Rightarrow>
            (case transcript_text tr of
               None \<Rightarrow> inputText
             | Some t \<Rightarrow> if t \<noteq> [] then inputText @ t else inputText)))"

text \<open>The message that carries one transcript fragment.\<close>

definition fragment_message :: "string \<Rightarrow> LiveServerMessage" where
  "fragment_message f =
    \<lparr>serverContent = Some \<lparr>inputTranscription = Some \<lparr>transcript_text = Some f\<rparr>\<rparr>\<rparr>"

text \<open>Messages delivered in order: each handler call sees the buffer the previous one left.\<close>

fun deliver :: "LiveServerMessage list \<Rightarrow> string \<Rightarrow> string" where
  "deliver [] inputText = inputText"
| "deliver (m # ms) inputText = deliver ms (onmessage m inputText)"

section \<open>App: the PCM encoder (createBlob)\<close>

text \<open>
  An element of the \<^verbatim>\<open>Float32Array\<close> handed to \<^verbatim>\<open>createBlob\<close>, read as a JavaScript
  Number: not-a-number, one of the infinities, or a finite value. Every finite value of
  a float is a rational number, so \<^typ>\<open>rat\<close> holds them all (and the two zeros as one:
  the code below does not tell them apart).
\<close>

datatype number = NaN | PosInfinity | NegInfinity | Finite rat

text \<open>\<^verbatim>\<open>Math.min\<close> and \<^verbatim>\<open>Math.max\<close> of two arguments: not-a-number is contagious.\<close>

fun Math_min :: "number \<Rightarrow> number \<Rightarrow> number" where
  "Math_min NaN y = NaN"
| "Math_min x NaN = NaN"
| "Math_min NegInfinity y = NegInfinity"
| "Math_min x NegInfinity = NegInfinity"
| "Math_min PosInfinity y = y"
| "Math_min x PosInfinity = x"
| "Math_min (Finite a) (Finite b) = Finite (min a b)"

fun Math_max :: "number \<Rightarrow> number \<Rightarrow> number" where
  "Math_max NaN y = NaN"
| "Math_max x NaN = NaN"
| "Math_max PosInfinity y = PosInfinity"
| "Math_max x PosInfinity = PosInfinity"
| "Math_max NegInfinity y = y"
| "Math_max x NegInfinity = x"
| "Math_max (Finite a) (Finite b) = Finite (max a b)"

text \<open>
  The operator \<^verbatim>\<open>*\<close> on Numbers. The product of two finite values is the exact one:
  the only product \<^verbatim>\<open>createBlob\<close> forms is a clamped float (a significand of 24 bits) by
  32767 (15 bits), which a double holds without rounding.
\<close>

definition signed_infinity :: "bool \<Rightarrow> number" where
  "signed_infinity negative = (if negative then NegInfinity else PosInfinity)"

fun times_number :: "number \<Rightarrow> number \<Rightarrow> number" where
  "times_number NaN y = NaN"
| "times_number x NaN = NaN"
| "times_number (Finite a) (Finite b) = Finite (a * b)"
| "times_number (Finite a) PosInfinity = (if a = 0 then NaN else signed_infinity (a < 0))"
| "times_number (Finite a) NegInfinity = (if a = 0 then NaN else signed_infinity (0 < a))"
| "times_number PosInfinity (Finite b) = (if b = 0 then NaN else signed_infinity (b < 0))"
| "times_number NegInfinity (Finite b) = (if b = 0 then NaN else signed_infinity (0 < b))"
| "times_number PosInfinity PosInfinity = PosInfinity"
| "times_number PosInfinity NegInfinity = NegInfinity"
| "times_number NegInfinity PosInfinity = NegInfinity"
| "times_number NegInfinity NegInfinity = PosInfinity"

text \<open>
  Storing a Number into an \<^verbatim>\<open>Int16Array\<close> applies \<^verbatim>\<open>ToInt16\<close>: not-a-number and the
  infinities become 0, a finite value is truncated towards zero and reduced modulo
  \<open>2^16\<close> (\<^term>\<open>word_of_int\<close>); \<^term>\<open>sint\<close> reads the stored element back.
\<close>

definition js_truncate :: "rat \<Rightarrow> int" where
  "js_truncate r = (if r < 0 then \<lceil>r\<rceil> else \<lfloor>r\<rfloor>)"

fun ToInt16 :: "number \<Rightarrow> 16 word" where
  "ToInt16 (Finite r) = word_of_int (js_truncate r)"
| "ToInt16 x = 0"

text \<open>The right-hand side of the assignment in the first loop of \<^verbatim>\<open>createBlob\<close>.\<close>

definition pcm_sample :: "number \<Rightarrow> 16 word" where
  "pcm_sample x =
     ToInt16 (times_number (Math_max (Finite (- 1)) (Math_min (Finite 1) x)) (Finite 32767))"

text \<open>
  The first loop, \<^verbatim>\<open>for (let i = 0; i < l; i++) int16[i] = ...\<close>, from the index \<open>i\<close>
  with the array as it is so far.
\<close>

function int16_loop :: "number list \<Rightarrow> nat \<Rightarrow> 16 word list \<Rightarrow> 16 word list" where
  "int16_loop samples i int16 =
     (if i < length samples
      then int16_loop samples (Suc i) (int16[i := pcm_sample (samples ! i)])
      else int16)"
  by pat_completeness auto
termination
  by (relation "measure (\<lambda>(samples, i, int16). length samples - i)") auto

declare int16_loop.simps [simp del]

text \<open>
  \<^verbatim>\<open>new Uint8Array(int16.buffer)\<close> views the same buffer as bytes. A typed array stores
  its elements in the byte order of the host; the model takes the little-endian order of
  the hosts browsers run on: low byte first.
\<close>

definition bytes_of_int16 :: "16 word \<Rightarrow> 8 word list" where
  "bytes_of_int16 w = [ucast w, ucast (drop_bit 8 w)]"

definition Uint8Array_of_buffer :: "16 word list \<Rightarrow> 8 word list" where
  "Uint8Array_of_buffer int16 = concat (map bytes_of_int16 int16)"

text \<open>
  \<^verbatim>\<open>String.fromCharCode\<close> of a byte is the character with that code; a \<^typ>\<open>char\<close> of HOL is
  one of the 256 of them, so the binary string is a \<^typ>\<open>string\<close>. The second loop appends
  one character for each byte.
\<close>

definition fromCharCode :: "8 word \<Rightarrow> char" where
  "fromCharCode b = char_of (unat b)"

function binary_loop :: "8 word list \<Rightarrow> nat \<Rightarrow> string \<Rightarrow> string" where
  "binary_loop uint8 i binary =
     (if i < length uint8
      then binary_loop uint8 (Suc i) (binary @ [fromCharCode (uint8 ! i)])
      else binary)"
  by pat_completeness auto
termination
  by (relation "measure (\<lambda>(uint8, i, binary). length uint8 - i)") auto

declare binary_loop.simps [simp del]

text \<open>
  \<^verbatim>\<open>btoa\<close> is the browser's base64 encoder (RFC 4648, with padding): three bytes give
  four characters of the alphabet, a last group of one or two bytes is padded with
  \<open>=\<close>. \<^verbatim>\<open>atob\<close> is its decoder, here the strict one: groups of four characters, padding
  only in the last group, \<open>None\<close> for anything else.
\<close>

definition base64_alphabet :: string where
  "base64_alphabet = ''ABCDEFGHIJKLMNOPQRSTUVWXYZabcdefghijklmnopqrstuvwxyz0123456789+/''"

definition base64_char :: "nat \<Rightarrow> char" where
  "base64_char n = base64_alphabet ! n"

fun btoa_codes :: "nat list \<Rightarrow> string" where
  "btoa_codes (a # b # c # rest) =
     [base64_char (a div 4), base64_char ((a mod 4) * 16 + b div 16),
      base64_char ((b mod 16) * 4 + c div 64), base64_char (c mod 64)] @ btoa_codes rest"
| "btoa_codes [a, b] =
     [base64_char (a div 4), base64_char ((a mod 4) * 16 + b div 16),
      base64_char ((b mod 16) * 4), CHR ''='']"
| "btoa_codes [a] =
     [base64_char (a div 4), base64_char ((a mod 4) * 16), CHR ''='', CHR ''='']"
| "btoa_codes [] = []"

definition btoa :: "string \<Rightarrow> string" where
  "btoa binary = btoa_codes (map of_char binary)"

fun index_of :: "'a list \<Rightarrow> 'a \<Rightarrow> nat option" where
  "index_of [] c = None"
| "index_of (x # xs) c = (if x = c then Some 0 else map_option Suc (index_of xs c))"

definition base64_value :: "char \<Rightarrow> nat option" where
  "base64_value c = index_of base64_alphabet c"

fun atob_codes :: "string \<Rightarrow> nat list option" where
  "atob_codes (c1 # c2 # c3 # c4 # rest) =
     (case (base64_value c1, base64_value c2) of
        (Some v1, Some v2) \<Rightarrow>
          if rest = [] \<and> c3 = CHR ''='' \<and> c4 = CHR ''='' then
            (if v2 mod 16 = 0 then Some [v1 * 4 + v2 div 16] else None)
          else
            (case base64_value c3 of
               Some v3 \<Rightarrow>
                 if rest = [] \<and> c4 = CHR ''='' then
                   (if v3 mod 4 = 0
                    then Some [v1 * 4 + v2 div 16, (v2 mod 16) * 16 + v3 div 4] else None)
                 else
                   (case base64_value c4 of
                      Some v4 \<Rightarrow>
                        map_option
                          (\<lambda>bytes. (v1 * 4 + v2 div 16) # ((v2 mod 16) * 16 + v3 div 4) #
                                      ((v3 mod 4) * 64 + v4) # bytes)
                          (atob_codes rest)
                    | None \<Rightarrow> None)
             | None \<Rightarrow> None)
      | _ \<Rightarrow> None)"
| "atob_codes [] = Some []"
| "atob_codes cs = None"

definition atob :: "string \<Rightarrow> string option" where
  "atob s = map_option (map char_of) (atob_codes s)"

text \<open>The \<^verbatim>\<open>Blob\<close> of the SDK, as \<^verbatim>\<open>createBlob\<close> fills it.\<close>

record GeminiBlob =
  data :: string
  mimeType :: string

text \<open>
  \<^verbatim>\<open>createBlob\<close>, with its intermediate values named: the \<^verbatim>\<open>Int16Array\<close> after the first
  loop (created with \<open>l\<close> zeros), its bytes, and the binary string after the second loop.
\<close>

definition createBlob_int16 :: "number list \<Rightarrow> 16 word list" where
  "createBlob_int16 frame = int16_loop frame 0 (replicate (length frame) 0)"

definition createBlob_uint8 :: "number list \<Rightarrow> 8 word list" where
  "createBlob_uint8 frame = Uint8Array_of_buffer (createBlob_int16 frame)"

definition createBlob_binary :: "number list \<Rightarrow> string" where
  "createBlob_binary frame = binary_loop (createBlob_uint8 frame) 0 []"

text \<open>The code of a character of a binary string, as a byte.\<close>

definition charCodeAt :: "char \<Rightarrow> 8 word" where
  "charCodeAt c = word_of_nat (of_char c)"

definition createBlob :: "number list \<Rightarrow> GeminiBlob" where
  "createBlob frame = \<lparr>data = btoa (createBlob_binary frame), mimeType = ''audio/pcm;rate=16000''\<rparr>"

section \<open>App: recording lifecycle (startRecording, cleanupAudio)\<close>

text \<open>
  The browser objects are handles (numbers); a \<^verbatim>\<open>MediaStream\<close> is the list of its tracks.
  A release call is one of the four calls \<^verbatim>\<open>cleanupAudio\<close> makes on them.
\<close>

type_synonym MediaStream = "nat list"

datatype release_call =
  ProcessorDisconnect nat
| SourceDisconnect nat
| TrackStop nat
| ContextClose nat

datatype audio_node = SourceNode nat | ProcessorNode nat | Destination nat

text \<open>
  The state the recording code reads and writes: the React state \<^verbatim>\<open>isRecording\<close>, the five
  refs, and what the code does to the world: the alerts shown, the lines written with
  \<^verbatim>\<open>console.error\<close>, the promise returned by \<^verbatim>\<open>connectToLiveSession\<close> (with the outcome it
  will settle to: \<open>Inl\<close> a rejection, \<open>Inr\<close> the session), the node connections made, and
  the release calls that completed, in order.
\<close>

record AudioState =
  isRecording :: bool
  audioContextRef :: "nat option"
  streamRef :: "MediaStream option"
  processorRef :: "nat option"
  sourceRef :: "nat option"
  currentTranscriptionRef :: string
  alerts :: "string list"
  console :: "string list"
  sessionPromise :: "(string + nat) option"
  connections :: "(audio_node \<times> audio_node) list"
  released :: "release_call list"

text \<open>
  The four blocks of \<^verbatim>\<open>cleanupAudio\<close>. Each result is the state after the block and the
  call that threw, if one did: a call in the list \<open>throwing\<close> throws, and the statements
  after it are not run (\<^verbatim>\<open>cleanupAudio\<close> has no \<^verbatim>\<open>try\<close>).
\<close>

definition release_processor ::
  "release_call list \<Rightarrow> AudioState \<Rightarrow> AudioState \<times> release_call option" where
  "release_processor throwing s =
    (case processorRef s of
       None \<Rightarrow> (s, None)
     | Some p \<Rightarrow>
        if ProcessorDisconnect p \<in> set throwing then (s, Some (ProcessorDisconnect p))
        else (s\<lparr>released := released s @ [ProcessorDisconnect p], processorRef := None\<rparr>, None))"

definition release_source ::
  "release_call list \<Rightarrow> AudioState \<Rightarrow> AudioState \<times> release_call option" where
  "release_source throwing s =
    (case sourceRef s of
       None \<Rightarrow> (s, None)
     | Some n \<Rightarrow>
        if SourceDisconnect n \<in> set throwing then (s, Some (SourceDisconnect n))
        else (s\<lparr>released := released s @ [SourceDisconnect n], sourceRef := None\<rparr>, None))"

text \<open>\<^verbatim>\<open>getTracks().forEach(track => track.stop())\<close>: a throwing callback ends the iteration.\<close>

fun stop_tracks ::
  "release_call list \<Rightarrow> nat list \<Rightarrow> AudioState \<Rightarrow> AudioState \<times> release_call option" where
  "stop_tracks throwing [] s = (s, None)"
| "stop_tracks throwing (track # tracks) s =
    (if TrackStop track \<in> set throwing then (s, Some (TrackStop track))
     else stop_tracks throwing tracks (s\<lparr>released := released s @ [TrackStop track]\<rparr>))"

definition release_stream ::
  "release_call list \<Rightarrow> AudioState \<Rightarrow> AudioState \<times> release_call option" where
  "release_stream throwing s =
    (case streamRef s of
       None \<Rightarrow> (s, None)
     | Some tracks \<Rightarrow>
        (case stop_tracks throwing tracks s of
           (s', Some c) \<Rightarrow> (s', Some c)
         | (s', None) \<Rightarrow> (s'\<lparr>streamRef := None\<rparr>, None)))"

definition release_context ::
  "release_call list \<Rightarrow> AudioState \<Rightarrow> AudioState \<times> release_call option" where
  "release_context throwing s =
    (case audioContextRef s of
       None \<Rightarrow> (s, None)
     | Some ctx \<Rightarrow>
        if ContextClose ctx \<in> set throwing then (s, Some (ContextClose ctx))
        else (s\<lparr>released := released s @ [ContextClose ctx], audioContextRef := None\<rparr>, None))"

text \<open>Statements in sequence: the second runs only if the first returned.\<close>

definition and_then ::
  "(AudioState \<Rightarrow> AudioState \<times> release_call option) \<Rightarrow>
   (AudioState \<Rightarrow> AudioState \<times> release_call option) \<Rightarrow>
   AudioState \<Rightarrow> AudioState \<times> release_call option" where
  "and_then f g s = (case f s of (s', Some c) \<Rightarrow> (s', Some c) | (s', None) \<Rightarrow> g s')"

definition cleanupAudio ::
  "release_call list \<Rightarrow> AudioState \<Rightarrow> AudioState \<times> release_call option" where
  "cleanupAudio throwing =
    and_then (release_processor throwing)
      (and_then (release_source throwing)
        (and_then (release_stream throwing) (release_context throwing)))"







text \<open>\<^verbatim>\<open>stopRecording\<close>.\<close>

definition stopRecording ::
  "release_call list \<Rightarrow> AudioState \<Rightarrow> AudioState \<times> release_call option" where
  "stopRecording throwing s = cleanupAudio throwing (s\<lparr>isRecording := False\<rparr>)"








subsection \<open>Example states and environments\<close>


text \<open>A recording in progress: processor 1, source 2, a stream with track 3, context 4.\<close>

definition active_state :: AudioState where
  "active_state =
    \<lparr>isRecording = True, audioContextRef = Some 4, streamRef = Some [3], processorRef = Some 1,
     sourceRef = Some 2, currentTranscriptionRef = [], alerts = [], console = [],
     sessionPromise = Some (Inr 5),
     connections = [(SourceNode 2, ProcessorNode 1), (ProcessorNode 1, Destination 4)],
     released = []\<rparr>"




section \<open>Numbers as decimal text\<close>

text \<open>
  \<^verbatim>\<open>Number.prototype.toString\<close> on an integer, as it is for the clock readings of
  \<^verbatim>\<open>Date.now()\<close>: the decimal digits, with a minus sign for a negative number.
\<close>

definition digit_char :: "nat \<Rightarrow> char" where
  "digit_char d = ''0123456789'' ! d"

function decimal :: "nat \<Rightarrow> string" where
  "decimal n = (if n < 10 then [digit_char n] else decimal (n div 10) @ [digit_char (n mod 10)])"
  by pat_completeness auto
termination
  by (relation "measure id") auto

declare decimal.simps [simp del]

definition number_toString :: "int \<Rightarrow> string" where
  "number_toString i = (if i < 0 then CHR ''-'' # decimal (nat (- i)) else decimal (nat i))"

section \<open>Whitespace\<close>

text \<open>
  \<^verbatim>\<open>String.prototype.trim\<close> removes white space and line terminators from both ends; among
  the 256 characters of \<^typ>\<open>char\<close> these are tab, line feed, vertical tab, form feed,
  carriage return, space and the no-break space.
\<close>

definition is_whitespace :: "char \<Rightarrow> bool" where
  "is_whitespace c = (of_char c \<in> {9, 10, 11, 12, 13, 32, 160 :: nat})"

definition trim :: "string \<Rightarrow> string" where
  "trim s = rev (dropWhile is_whitespace (rev (dropWhile is_whitespace s)))"

section \<open>geminiService: generateGoldenPrompt\<close>

text \<open>
  The request \<^verbatim>\<open>generateGoldenPrompt\<close> passes to \<^verbatim>\<open>ai.models.generateContent\<close>. The system
  instruction and the response schema are constants of the module and are left out.
\<close>

datatype tool = GoogleSearch

record GenerateContentRequest =
  model :: string
  contents :: string
  tools :: "tool list"
  responseMimeType :: string
  thinkingBudget :: nat

definition generateContent_request :: "string \<Rightarrow> bool \<Rightarrow> GenerateContentRequest" where
  "generateContent_request input grounding =
    \<lparr>model = ''gemini-3-pro-preview'', contents = input,
     tools = (if grounding then [GoogleSearch] else []),
     responseMimeType = ''application/json'', thinkingBudget = 32768\<rparr>"

text \<open>
  What comes back. The call throws an error with a message (empty when the error has
  none), or returns a response: its text, if any; what \<^verbatim>\<open>JSON.parse\<close> makes of that text (it
  throws, or gives \<^verbatim>\<open>null\<close>, or gives the object the code takes for a \<^verbatim>\<open>GoldenResult\<close>); and the
  grounding chunks of the first candidate, if any. A chunk has an optional \<^verbatim>\<open>web\<close> part with
  an optional uri and title.
\<close>

datatype parsed = ParseThrows | ParsedNull | Parsed GoldenResult

record Web =
  web_uri :: "string option"
  web_title :: "string option"

type_synonym GroundingChunk = "Web option"

datatype api_answer =
  ApiThrows string
| ApiResponse "string option" parsed "GroundingChunk list option"

text \<open>The record \<^verbatim>\<open>generateGoldenPrompt\<close> resolves to: \<^verbatim>\<open>{ data, sources, error }\<close>.\<close>

record GoldenPromptOutcome =
  gp_data :: "GoldenResult option"
  gp_sources :: "GroundingSource list"
  gp_error :: "string option"

text \<open>A string is truthy when it is there and not empty.\<close>

definition truthy :: "string option \<Rightarrow> bool" where
  "truthy x = (case x of None \<Rightarrow> False | Some t \<Rightarrow> t \<noteq> [])"

text \<open>The \<^verbatim>\<open>forEach\<close> over the grounding chunks.\<close>

fun extract_sources :: "GroundingChunk list \<Rightarrow> GroundingSource list" where
  "extract_sources [] = []"
| "extract_sources (chunk # chunks) =
    (case chunk of
       None \<Rightarrow> extract_sources chunks
     | Some web \<Rightarrow>
        if truthy (web_uri web) \<and> truthy (web_title web)
        then \<lparr>uri = the (web_uri web), title = the (web_title web)\<rparr> # extract_sources chunks
        else extract_sources chunks)"

text \<open>The \<^verbatim>\<open>catch\<close> block: \<^verbatim>\<open>error.message || "An unexpected error occurred."\<close>.\<close>

definition caught :: "string \<Rightarrow> GoldenPromptOutcome" where
  "caught message =
    \<lparr>gp_data = None, gp_sources = [],
     gp_error = Some (if message \<noteq> [] then message else ''An unexpected error occurred.'')\<rparr>"

text \<open>
  \<^verbatim>\<open>generateGoldenPrompt\<close>, given the answer to its request. Every error is caught inside,
  so the function always returns.
\<close>

definition generateGoldenPrompt :: "api_answer \<Rightarrow> GoldenPromptOutcome" where
  "generateGoldenPrompt answer =
    (case answer of
       ApiThrows message \<Rightarrow> caught message
     | ApiResponse resultText json chunks \<Rightarrow>
        if \<not> truthy resultText then caught ''No response from Gemini''
        else
          (case json of
             ParseThrows \<Rightarrow> caught ''Failed to parse Golden Prompt.''
           | ParsedNull \<Rightarrow>
              \<lparr>gp_data = None,
               gp_sources = (case chunks of None \<Rightarrow> [] | Some cs \<Rightarrow> extract_sources cs),
               gp_error = None\<rparr>
           | Parsed parsedResult \<Rightarrow>
              \<lparr>gp_data = Some parsedResult,
               gp_sources = (case chunks of None \<Rightarrow> [] | Some cs \<Rightarrow> extract_sources cs),
               gp_error = None\<rparr>))"

section \<open>App: handleConvert and addToHistory\<close>

record ConversionState =
  isLoading :: bool
  cs_result :: "GoldenResult option"
  cs_error :: "string option"
  cs_sources :: "GroundingSource list"

record AppState =
  inputText :: string
  useGrounding :: bool
  conversionState :: ConversionState
  history :: "HistoryItem list"

text \<open>
  \<^verbatim>\<open>addToHistory\<close> reads the clock twice, once for the id and once for the timestamp, and
  puts the new item in front.
\<close>

definition addToHistory ::
  "int \<Rightarrow> int \<Rightarrow> string \<Rightarrow> GoldenResult \<Rightarrow> HistoryItem list \<Rightarrow> HistoryItem list" where
  "addToHistory now_id now_timestamp input res prev =
    \<lparr>item_id = number_toString now_id, originalInput = input, result = res,
     timestamp = now_timestamp\<rparr> # prev"

text \<open>
  \<^verbatim>\<open>handleConvert\<close>, given the answer to the request it makes and the two clock readings.
  A blank input returns at once. The outer \<^verbatim>\<open>catch\<close> has no case here, since
  \<^verbatim>\<open>generateGoldenPrompt\<close> does not throw. The request made is
  \<open>handleConvert_request\<close>.
\<close>

definition handleConvert_request :: "AppState \<Rightarrow> GenerateContentRequest option" where
  "handleConvert_request s =
    (if trim (inputText s) = [] then None
     else Some (generateContent_request (inputText s) (useGrounding s)))"

definition handleConvert :: "api_answer \<Rightarrow> int \<Rightarrow> int \<Rightarrow> AppState \<Rightarrow> AppState" where
  "handleConvert answer now_id now_timestamp s =
    (if trim (inputText s) = [] then s
     else
       (let loading = (conversionState s)\<lparr>isLoading := True, cs_error := None\<rparr>;
            outcome = generateGoldenPrompt answer
        in if truthy (gp_error outcome) \<or> gp_data outcome = None
           then s\<lparr>conversionState := loading
                    \<lparr>isLoading := False,
                     cs_error := Some (if truthy (gp_error outcome) then the (gp_error outcome)
                                       else ''Failed to generate.'')\<rparr>\<rparr>
           else s\<lparr>conversionState :=
                     \<lparr>isLoading = False, cs_result = gp_data outcome, cs_error = None,
                      cs_sources = gp_sources outcome\<rparr>,
                   history := addToHistory now_id now_timestamp (inputText s)
                                (the (gp_data outcome)) (history s)\<rparr>))"

text \<open>The scenario of the specification.\<close>

definition example_result :: GoldenResult where
  "example_result =
    \<lparr>originalTranslation = ''A girl is flying in the sky'',
     goldenPrompt = ''A young girl soaring through a luminous sky, cinematic, highly detailed'',
     category = ''Image Generation'', reasoning = ''Added mood and style.''\<rparr>"

definition example_app :: AppState where
  "example_app =
    \<lparr>inputText = ''Oka pilla akasamlo egurutundi'', useGrounding = False,
     conversionState = \<lparr>isLoading = False, cs_result = None, cs_error = None, cs_sources = []\<rparr>,
     history = []\<rparr>"

section \<open>ChatBot: handleSend and sendChatMessage\<close>

datatype role = User | Model

text \<open>
  \<^verbatim>\<open>ChatMessage\<close> of \<^verbatim>\<open>types.ts\<close>; the \<^verbatim>\<open>Date\<close> of the timestamp is its clock reading, the
  optional \<^verbatim>\<open>isThinking\<close> is never set.
\<close>

record ChatMessage =
  chat_id :: string
  chat_role :: role
  chat_text :: string
  chat_timestamp :: int

text \<open>The component state, and the lines written with \<^verbatim>\<open>console.error\<close>.\<close>

record ChatState =
  isOpen :: bool
  chat_input :: string
  messages :: "ChatMessage list"
  chat_isLoading :: bool
  chat_console :: "string list"

text \<open>
  \<^verbatim>\<open>sendChatMessage\<close>, given what the chat API does: it throws an error with a message
  (\<open>Inl\<close>), or returns a result whose text may be missing (\<open>Inr\<close>). The \<^verbatim>\<open>catch\<close> block throws
  a new error with the same message.
\<close>

definition sendChatMessage :: "string + string option \<Rightarrow> string + string option" where
  "sendChatMessage api =
    (case api of Inl message \<Rightarrow> Inl message | Inr resultText \<Rightarrow> Inr resultText)"

text \<open>The history argument \<^verbatim>\<open>handleSend\<close> builds from the messages before the new one.\<close>

definition chat_history :: "ChatMessage list \<Rightarrow> (role \<times> string list) list" where
  "chat_history ms = map (\<lambda>m. (chat_role m, [chat_text m])) ms"

text \<open>
  \<^verbatim>\<open>handleSend\<close>, given what the chat API does and the clock readings: for the id and the
  timestamp of the user's message, and for those of the reply.
\<close>

definition handleSend ::
  "string + string option \<Rightarrow> int \<Rightarrow> int \<Rightarrow> int \<Rightarrow> int \<Rightarrow> ChatState \<Rightarrow> ChatState" where
  "handleSend api now1 now2 now3 now4 s =
    (if trim (chat_input s) = [] \<or> chat_isLoading s then s
     else
       (let userMsg = \<lparr>chat_id = number_toString now1, chat_role = User,
                        chat_text = chat_input s, chat_timestamp = now2\<rparr>;
            s1 = s\<lparr>messages := messages s @ [userMsg], chat_input := [],
                    chat_isLoading := True\<rparr>;
            s2 = (case sendChatMessage api of
                    Inr responseText \<Rightarrow>
                      s1\<lparr>messages := messages s1 @
                          [\<lparr>chat_id = number_toString (now3 + 1), chat_role = Model,
                            chat_text = (if truthy responseText then the responseText
                                         else ''I couldn't generate a response.''),
                            chat_timestamp = now4\<rparr>]\<rparr>
                  | Inl message \<Rightarrow>
                      s1\<lparr>chat_console := chat_console s1 @ [''Chat error '' @ message]\<rparr>)
        in s2\<lparr>chat_isLoading := False\<rparr>))"

text \<open>
  What the chat window shows that depends on the state: the texts of the messages, the
  placeholder when there is none, whether the loading dots are there, and the input
  field.
\<close>

record ChatView =
  shown_texts :: "string list"
  shown_loading :: bool
  shown_input :: string

definition chat_view :: "ChatState \<Rightarrow> ChatView" where
  "chat_view s =
    \<lparr>shown_texts =
       (if messages s = [] then [''Ask me anything about prompts or Telugu translations!'']
        else []) @ map chat_text (messages s),
     shown_loading = chat_isLoading s,
     shown_input = chat_input s\<rparr>"

definition example_chat :: ChatState where
  "example_chat =
    \<lparr>isOpen = True, chat_input = ''What is a golden prompt?'', messages = [],
     chat_isLoading = False, chat_console = []\<rparr>"

section \<open>JSON text\<close>

text \<open>
  The values \<^verbatim>\<open>JSON.stringify\<close> writes and \<^verbatim>\<open>JSON.parse\<close> reads. A number is an integer here
  (the clock readings are); an object is the list of its properties in insertion order.
\<close>

datatype json =
  JNull
| JBool bool
| JNum int
| JStr string
| JArr "json list"
| JObj "(string \<times> json) list"

text \<open>
  \<^verbatim>\<open>JSON.stringify\<close> without indentation. A string is quoted as \<^verbatim>\<open>QuoteJSONString\<close> does: the
  double quote (code 0x22) and the backslash (0x5C) are escaped, the control characters
  below 0x20 are written by their short escape or as \<open>\u00XX\<close>, every other character is
  written as it is.
\<close>

definition hex_char :: "nat \<Rightarrow> char" where
  "hex_char d = ''0123456789abcdef'' ! d"

definition quote_char :: "char \<Rightarrow> string" where
  "quote_char c =
    (if c = CHR 0x22 then [CHR 0x5C, CHR 0x22]
     else if c = CHR 0x5C then [CHR 0x5C, CHR 0x5C]
     else if c = CHR 0x08 then [CHR 0x5C, CHR ''b'']
     else if c = CHR 0x0C then [CHR 0x5C, CHR ''f'']
     else if c = CHR 0x0A then [CHR 0x5C, CHR ''n'']
     else if c = CHR 0x0D then [CHR 0x5C, CHR ''r'']
     else if c = CHR 0x09 then [CHR 0x5C, CHR ''t'']
     else if (of_char c :: nat) < 32
       then [CHR 0x5C, CHR ''u'', CHR ''0'', CHR ''0'',
             hex_char (of_char c div 16), hex_char (of_char c mod 16)]
     else [c])"

definition QuoteJSONString :: "string \<Rightarrow> string" where
  "QuoteJSONString s = CHR 0x22 # concat (map quote_char s) @ [CHR 0x22]"

fun stringify :: "json \<Rightarrow> string"
  and stringify_elements :: "json list \<Rightarrow> string"
  and stringify_members :: "(string \<times> json) list \<Rightarrow> string" where
  "stringify JNull = ''null''"
| "stringify (JBool b) = (if b then ''true'' else ''false'')"
| "stringify (JNum i) = number_toString i"
| "stringify (JStr s) = QuoteJSONString s"
| "stringify (JArr vs) = ''['' @ stringify_elements vs @ '']''"
| "stringify (JObj ms) = ''{'' @ stringify_members ms @ ''}''"
| "stringify_elements [] = []"
| "stringify_elements [v] = stringify v"
| "stringify_elements (v # w # vs) = stringify v @ '','' @ stringify_elements (w # vs)"
| "stringify_members [] = []"
| "stringify_members [(k, v)] = QuoteJSONString k @ '':'' @ stringify v"
| "stringify_members ((k, v) # m # ms) =
     QuoteJSONString k @ '':'' @ stringify v @ '','' @ stringify_members (m # ms)"

text \<open>
  \<^verbatim>\<open>JSON.parse\<close>, as a recursive-descent parser of the JSON grammar: white space between
  tokens, the three literals, integers without leading zeros, strings with every escape
  (an escape \<open>\uXXXX\<close> has to name one of the 256 characters of \<^typ>\<open>char\<close>), arrays and
  objects. \<open>None\<close> is the \<^verbatim>\<open>SyntaxError\<close>; a number with a fraction or an exponent is not
  a value of the model and gives \<open>None\<close> as well. Each parser returns the value and the
  rest of the text.
\<close>

definition json_whitespace :: "char \<Rightarrow> bool" where
  "json_whitespace c = (c = CHR '' '' \<or> c = CHR 0x09 \<or> c = CHR 0x0A \<or> c = CHR 0x0D)"

definition skip_ws :: "string \<Rightarrow> string" where
  "skip_ws s = dropWhile json_whitespace s"

definition is_digit :: "char \<Rightarrow> bool" where
  "is_digit c = (c \<in> set ''0123456789'')"

definition digit_value :: "char \<Rightarrow> nat" where
  "digit_value c = (case index_of ''0123456789'' c of Some d \<Rightarrow> d | None \<Rightarrow> 0)"

definition digits_value :: "string \<Rightarrow> nat" where
  "digits_value ds = foldl (\<lambda>n c. 10 * n + digit_value c) 0 ds"

definition parse_nat :: "string \<Rightarrow> (nat \<times> string) option" where
  "parse_nat s =
    (let ds = takeWhile is_digit s; rest = dropWhile is_digit s
     in if ds = [] \<or> (hd ds = CHR ''0'' \<and> length ds > 1) then None
        else if rest \<noteq> [] \<and> (hd rest = CHR ''.'' \<or> hd rest = CHR ''e'' \<or> hd rest = CHR ''E'')
        then None
        else Some (digits_value ds, rest))"

definition parse_int :: "string \<Rightarrow> (int \<times> string) option" where
  "parse_int s =
    (case s of
       [] \<Rightarrow> None
     | c # cs \<Rightarrow>
        if c = CHR ''-'' then
          (case parse_nat cs of None \<Rightarrow> None | Some (n, rest) \<Rightarrow> Some (- int n, rest))
        else
          (case parse_nat s of None \<Rightarrow> None | Some (n, rest) \<Rightarrow> Some (int n, rest)))"

definition hex_value :: "char \<Rightarrow> nat option" where
  "hex_value c =
    (case index_of ''0123456789abcdef'' c of
       Some d \<Rightarrow> Some d
     | None \<Rightarrow> (case index_of ''ABCDEF'' c of Some d \<Rightarrow> Some (10 + d) | None \<Rightarrow> None))"

definition unescape :: "char \<Rightarrow> char option" where
  "unescape e =
    (if e = CHR 0x22 then Some (CHR 0x22)
     else if e = CHR 0x5C then Some (CHR 0x5C)
     else if e = CHR ''/'' then Some (CHR ''/'')
     else if e = CHR ''b'' then Some (CHR 0x08)
     else if e = CHR ''f'' then Some (CHR 0x0C)
     else if e = CHR ''n'' then Some (CHR 0x0A)
     else if e = CHR ''r'' then Some (CHR 0x0D)
     else if e = CHR ''t'' then Some (CHR 0x09)
     else None)"

definition parse_unicode_escape :: "string \<Rightarrow> char option" where
  "parse_unicode_escape hs =
    (case map hex_value hs of
       [Some a, Some b, Some c, Some d] \<Rightarrow>
         if a = 0 \<and> b = 0 then Some (char_of (16 * c + d)) else None
     | _ \<Rightarrow> None)"

fun parse_chars :: "string \<Rightarrow> (string \<times> string) option" where
  "parse_chars [] = None"
| "parse_chars (c # cs) =
    (if c = CHR 0x22 then Some ([], cs)
     else if c = CHR 0x5C then
       (case cs of
          [] \<Rightarrow> None
        | e # cs' \<Rightarrow>
           if e = CHR ''u'' then
             (case parse_unicode_escape (take 4 cs') of
                None \<Rightarrow> None
              | Some ch \<Rightarrow>
                 (case parse_chars (drop 4 cs') of
                    None \<Rightarrow> None
                  | Some (t, rest) \<Rightarrow> Some (ch # t, rest)))
           else
             (case unescape e of
                None \<Rightarrow> None
              | Some ch \<Rightarrow>
                 (case parse_chars cs' of
                    None \<Rightarrow> None
                  | Some (t, rest) \<Rightarrow> Some (ch # t, rest))))
     else if (of_char c :: nat) < 32 then None
     else
       (case parse_chars cs of
          None \<Rightarrow> None
        | Some (t, rest) \<Rightarrow> Some (c # t, rest)))"

definition parse_literal :: "string \<Rightarrow> (json \<times> string) option" where
  "parse_literal s =
    (if take 4 s = ''null'' then Some (JNull, drop 4 s)
     else if take 4 s = ''true'' then Some (JBool True, drop 4 s)
     else if take 5 s = ''false'' then Some (JBool False, drop 5 s)
     else None)"

lemma length_skip_ws [termination_simp]: "length (skip_ws s) \<le> length s"
  by (simp add: skip_ws_def length_dropWhile_le)

text \<open>
  The parsers of values, of the elements of an array up to its bracket, and of the
  members of an object up to its brace. The tests on the length of the rest are always
  true (a parser consumes what it reads); they make the recursion well-founded.
\<close>

function parse_value :: "string \<Rightarrow> (json \<times> string) option"
  and parse_elements :: "string \<Rightarrow> (json list \<times> string) option"
  and parse_members :: "string \<Rightarrow> ((string \<times> json) list \<times> string) option" where
  "parse_value s =
    (case skip_ws s of
       [] \<Rightarrow> None
     | c # cs \<Rightarrow>
        if c = CHR ''['' then
          (case skip_ws cs of
             [] \<Rightarrow> None
           | d # r \<Rightarrow>
              if d = CHR '']'' then Some (JArr [], r)
              else (case parse_elements cs of
                      None \<Rightarrow> None
                    | Some (vs, rest) \<Rightarrow> Some (JArr vs, rest)))
        else if c = CHR ''{'' then
          (case skip_ws cs of
             [] \<Rightarrow> None
           | d # r \<Rightarrow>
              if d = CHR ''}'' then Some (JObj [], r)
              else (case parse_members cs of
                      None \<Rightarrow> None
                    | Some (ms, rest) \<Rightarrow> Some (JObj ms, rest)))
        else if c = CHR 0x22 then
          (case parse_chars cs of None \<Rightarrow> None | Some (t, rest) \<Rightarrow> Some (JStr t, rest))
        else if c = CHR ''-'' \<or> is_digit c then
          (case parse_int (c # cs) of None \<Rightarrow> None | Some (i, rest) \<Rightarrow> Some (JNum i, rest))
        else parse_literal (c # cs))"
| "parse_elements s =
    (case parse_value s of
       None \<Rightarrow> None
     | Some (v, r) \<Rightarrow>
        (case skip_ws r of
           [] \<Rightarrow> None
         | d # r' \<Rightarrow>
            if d = CHR '','' then
              (if length r' < length s then
                 (case parse_elements r' of
                    None \<Rightarrow> None
                  | Some (vs, rest) \<Rightarrow> Some (v # vs, rest))
               else None)
            else if d = CHR '']'' then Some ([v], r')
            else None))"
| "parse_members s =
    (case skip_ws s of
       [] \<Rightarrow> None
     | c # cs \<Rightarrow>
        if c = CHR 0x22 then
          (case parse_chars cs of
             None \<Rightarrow> None
           | Some (k, r) \<Rightarrow>
              (case skip_ws r of
                 [] \<Rightarrow> None
               | d # r1 \<Rightarrow>
                  if d = CHR '':'' \<and> length r1 < length s then
                    (case parse_value r1 of
                       None \<Rightarrow> None
                     | Some (v, r2) \<Rightarrow>
                        (case skip_ws r2 of
                           [] \<Rightarrow> None
                         | e # r3 \<Rightarrow>
                            if e = CHR '','' then
                              (if length r3 < length s then
                                 (case parse_members r3 of
                                    None \<Rightarrow> None
                                  | Some (ms, rest) \<Rightarrow> Some ((k, v) # ms, rest))
                               else None)
                            else if e = CHR ''}'' then Some ([(k, v)], r3)
                            else None))
                  else None))
        else None)"
  by pat_completeness auto

termination
proof (relation "measure (\<lambda>x. case x of
    Inl s \<Rightarrow> 2 * length s
  | Inr (Inl s) \<Rightarrow> 2 * length s + 1
  | Inr (Inr s) \<Rightarrow> 2 * length s + 1)", goal_cases)
  case 1
  then show ?case by simp
next
  case (2 s c cs d r)
  then show ?case using length_skip_ws [of s] by simp
next
  case (3 s c cs d r)
  then show ?case using length_skip_ws [of s] by simp
next
  case 4
  then show ?case by simp
next
  case 5
  then show ?case by simp
next
  case 6
  then show ?case by simp
next
  case 7
  then show ?case by simp
qed

declare parse_value.simps [simp del] parse_elements.simps [simp del]
  parse_members.simps [simp del]

text \<open>\<^verbatim>\<open>JSON.parse\<close>: one value, and nothing but white space after it.\<close>

definition JSON_parse :: "string \<Rightarrow> json option" where
  "JSON_parse s =
    (case parse_value s of
       None \<Rightarrow> None
     | Some (v, rest) \<Rightarrow> if skip_ws rest = [] then Some v else None)"

text \<open>
  Where a number may end and where a value may end in a text \<^verbatim>\<open>JSON.stringify\<close> wrote (used
  in the proofs): a number is not followed by a digit, a fraction or an exponent; a value
  is followed by a comma, a closing bracket or brace, or nothing.
\<close>

definition number_end :: "string \<Rightarrow> bool" where
  "number_end rest =
    (rest = [] \<or> (\<not> is_digit (hd rest) \<and> hd rest \<notin> {CHR ''.'', CHR ''e'', CHR ''E''}))"

definition value_end :: "string \<Rightarrow> bool" where
  "value_end rest = (rest = [] \<or> hd rest \<in> {CHR '','', CHR '']'', CHR ''}''})"

section \<open>App: history persistence\<close>

text \<open>
  A history item as the JSON value \<^verbatim>\<open>JSON.stringify\<close> sees, with the properties in the
  order \<^verbatim>\<open>addToHistory\<close> and the interface \<^verbatim>\<open>GoldenResult\<close> list them.
\<close>

definition json_of_result :: "GoldenResult \<Rightarrow> json" where
  "json_of_result r =
    JObj [(''originalTranslation'', JStr (originalTranslation r)),
          (''goldenPrompt'', JStr (goldenPrompt r)),
          (''category'', JStr (category r)),
          (''reasoning'', JStr (reasoning r))]"

definition json_of_item :: "HistoryItem \<Rightarrow> json" where
  "json_of_item item =
    JObj [(''id'', JStr (item_id item)),
          (''originalInput'', JStr (originalInput item)),
          (''result'', json_of_result (result item)),
          (''timestamp'', JNum (timestamp item))]"

definition json_of_history :: "HistoryItem list \<Rightarrow> json" where
  "json_of_history h = JArr (map json_of_item h)"

text \<open>
  Reading a parsed value as history items is property access by name; of a name that
  occurs twice in the text the last value counts. A value that is not a list of such
  items is not a history of the typed model (\<open>None\<close>).
\<close>

definition get_property :: "string \<Rightarrow> (string \<times> json) list \<Rightarrow> json option" where
  "get_property k ms = map_of (rev ms) k"

definition get_string :: "string \<Rightarrow> (string \<times> json) list \<Rightarrow> string option" where
  "get_string k ms = (case get_property k ms of Some (JStr t) \<Rightarrow> Some t | _ \<Rightarrow> None)"

definition result_of_json :: "json \<Rightarrow> GoldenResult option" where
  "result_of_json v =
    (case v of
       JObj ms \<Rightarrow>
        (case (get_string ''originalTranslation'' ms, get_string ''goldenPrompt'' ms,
               get_string ''category'' ms, get_string ''reasoning'' ms) of
           (Some t, Some g, Some c, Some r) \<Rightarrow>
             Some \<lparr>originalTranslation = t, goldenPrompt = g, category = c, reasoning = r\<rparr>
         | _ \<Rightarrow> None)
     | _ \<Rightarrow> None)"

definition item_of_json :: "json \<Rightarrow> HistoryItem option" where
  "item_of_json v =
    (case v of
       JObj ms \<Rightarrow>
        (case (get_string ''id'' ms, get_string ''originalInput'' ms,
               get_property ''result'' ms, get_property ''timestamp'' ms) of
           (Some i, Some inp, Some rv, Some (JNum t)) \<Rightarrow>
             (case result_of_json rv of
                Some r \<Rightarrow> Some \<lparr>item_id = i, originalInput = inp, result = r, timestamp = t\<rparr>
              | None \<Rightarrow> None)
         | _ \<Rightarrow> None)
     | _ \<Rightarrow> None)"

fun items_of_json :: "json list \<Rightarrow> HistoryItem list option" where
  "items_of_json [] = Some []"
| "items_of_json (v # vs) =
    (case item_of_json v of
       None \<Rightarrow> None
     | Some item \<Rightarrow>
        (case items_of_json vs of None \<Rightarrow> None | Some items \<Rightarrow> Some (item # items)))"

definition history_of_json :: "json \<Rightarrow> HistoryItem list option" where
  "history_of_json v = (case v of JArr vs \<Rightarrow> items_of_json vs | _ \<Rightarrow> None)"

text \<open>\<^verbatim>\<open>localStorage\<close>: a map from keys to strings.\<close>

type_synonym Storage = "string \<rightharpoonup> string"

definition HISTORY_KEY :: string where
  "HISTORY_KEY = ''suvarna-history''"

text \<open>The second effect: \<^verbatim>\<open>localStorage.setItem('suvarna-history', JSON.stringify(history))\<close>.\<close>

definition save_history :: "HistoryItem list \<Rightarrow> Storage \<Rightarrow> Storage" where
  "save_history h store = store(HISTORY_KEY \<mapsto> stringify (json_of_history h))"

text \<open>
  The first effect: the history it passes to \<^verbatim>\<open>setHistory\<close>, if it does. Nothing is set
  when the key is absent, when the saved string is empty (falsy), or when
  \<^verbatim>\<open>JSON.parse\<close> throws (the error is caught and logged).
\<close>

definition load_history :: "Storage \<Rightarrow> HistoryItem list option" where
  "load_history store =
    (case store HISTORY_KEY of
       None \<Rightarrow> None
     | Some savedHistory \<Rightarrow>
        if savedHistory = [] then None
        else (case JSON_parse savedHistory of
                None \<Rightarrow> None
              | Some v \<Rightarrow> history_of_json v))"

text \<open>
  Initialization. After the first render, with the history \<open>[]\<close>, both effects run in
  order: the first reads the store, the second writes \<open>[]\<close>. If the first one set a
  history, the component renders again and the second effect writes that history.
\<close>

definition initialize :: "Storage \<Rightarrow> HistoryItem list \<times> Storage" where
  "initialize store =
    (let loaded = load_history store;
         store1 = save_history [] store
     in case loaded of
          None \<Rightarrow> ([], store1)
        | Some h \<Rightarrow> (h, save_history h store1))"

definition example_history :: "HistoryItem list" where
  "example_history =
    [\<lparr>item_id = ''1700000000000'', originalInput = ''Oka pilla akasamlo egurutundi'',
      result = example_result, timestamp = 1700000000001\<rparr>]"

section \<open>Theorems\<close>

subsection \<open>Enhancement chips\<close>

lemma endsWith_suffix: "endsWith s t = suffix t s"
proof
  assume "endsWith s t"
  then have "s = take (length s - length t) s @ t"
    by (metis append_take_drop_id endsWith_def)
  then show "suffix t s"
    by (metis suffixI)
next
  assume "suffix t s"
  then obtain u where "s = u @ t"
    by (auto simp: suffix_def)
  then show "endsWith s t"
    by (simp add: endsWith_def)
qed

lemma endsWith_append: "endsWith (p @ t) t"
  by (simp add: endsWith_def)

text \<open>
  C10. For every prompt \<open>p\<close> and snippet \<open>t\<close>: if \<open>p\<close> already ends with \<open>t\<close>, the
  enhancement leaves \<open>p\<close> as it is, and applying the same snippet twice in a row gives the
  prompt that applying it once gives.
\<close>

theorem handleEnhance_idempotent:
  "(endsWith p t \<longrightarrow> handleEnhance t p = p) \<and>
   handleEnhance t (handleEnhance t p) = handleEnhance t p"
  by (simp add: handleEnhance_def endsWith_append)

theorem handleEnhance_idempotent_witness:
  "endsWith ''a robot drinking coffee in 4K resolution, highly detailed''
      (snd (ENHANCEMENT_CHIPS ! 0)) \<and>
   handleEnhance (snd (ENHANCEMENT_CHIPS ! 0))
      ''a robot drinking coffee in 4K resolution, highly detailed''
     = ''a robot drinking coffee in 4K resolution, highly detailed'' \<and>
   handleEnhance (snd (ENHANCEMENT_CHIPS ! 0))
      (handleEnhance (snd (ENHANCEMENT_CHIPS ! 0)) ''a robot drinking coffee'')
     = ''a robot drinking coffee in 4K resolution, highly detailed''"
proof -
  have e: "endsWith ''a robot drinking coffee in 4K resolution, highly detailed''
      (snd (ENHANCEMENT_CHIPS ! 0))"
    by (simp add: ENHANCEMENT_CHIPS_def endsWith_def)
  have once: "handleEnhance (snd (ENHANCEMENT_CHIPS ! 0)) ''a robot drinking coffee''
      = ''a robot drinking coffee in 4K resolution, highly detailed''"
    by (simp add: ENHANCEMENT_CHIPS_def handleEnhance_def endsWith_def)
  from handleEnhance_idempotent
    [of "''a robot drinking coffee in 4K resolution, highly detailed''"
        "snd (ENHANCEMENT_CHIPS ! 0)"]
    handleEnhance_idempotent
    [of "''a robot drinking coffee''" "snd (ENHANCEMENT_CHIPS ! 0)"]
    e once
  show ?thesis by simp
qed

subsection \<open>Deleting a history item\<close>

lemma filter_subseq: "subseq (filter P xs) xs"
  by (induction xs) auto

lemma count_list_filter_keep: "P x \<Longrightarrow> count_list (filter P xs) x = count_list xs x"
  by (induction xs) auto

text \<open>
  C7. For every history list and every id, deleting by that id leaves no entry with that
  id, keeps every other entry as it is (the same record, as often as it occurred), and
  keeps the remaining entries in their relative order (the result is a subsequence of the
  list).
\<close>

theorem handleDeleteHistoryItem_exact:
  "(\<forall>x \<in> set (handleDeleteHistoryItem i h). item_id x \<noteq> i) \<and>
   (\<forall>x. item_id x \<noteq> i \<longrightarrow>
      count_list (handleDeleteHistoryItem i h) x = count_list h x) \<and>
   subseq (handleDeleteHistoryItem i h) h"
  by (simp add: handleDeleteHistoryItem_def filter_subseq count_list_filter_keep)

theorem handleDeleteHistoryItem_exact_witness:
  "handleDeleteHistoryItem ''2''
     [\<lparr>item_id = ''3'', originalInput = ''c'',
        result = \<lparr>originalTranslation = ''C'', goldenPrompt = ''CC'', category = ''k'',
                  reasoning = ''r''\<rparr>, timestamp = 3\<rparr>,
      \<lparr>item_id = ''2'', originalInput = ''b'',
        result = \<lparr>originalTranslation = ''B'', goldenPrompt = ''BB'', category = ''k'',
                  reasoning = ''r''\<rparr>, timestamp = 2\<rparr>,
      \<lparr>item_id = ''1'', originalInput = ''a'',
        result = \<lparr>originalTranslation = ''A'', goldenPrompt = ''AA'', category = ''k'',
                  reasoning = ''r''\<rparr>, timestamp = 1\<rparr>]
   = [\<lparr>item_id = ''3'', originalInput = ''c'',
        result = \<lparr>originalTranslation = ''C'', goldenPrompt = ''CC'', category = ''k'',
                  reasoning = ''r''\<rparr>, timestamp = 3\<rparr>,
      \<lparr>item_id = ''1'', originalInput = ''a'',
        result = \<lparr>originalTranslation = ''A'', goldenPrompt = ''AA'', category = ''k'',
                  reasoning = ''r''\<rparr>, timestamp = 1\<rparr>] \<and>
   count_list (handleDeleteHistoryItem ''2''
     [\<lparr>item_id = ''3'', originalInput = ''c'',
        result = \<lparr>originalTranslation = ''C'', goldenPrompt = ''CC'', category = ''k'',
                  reasoning = ''r''\<rparr>, timestamp = 3\<rparr>,
      \<lparr>item_id = ''2'', originalInput = ''b'',
        result = \<lparr>originalTranslation = ''B'', goldenPrompt = ''BB'', category = ''k'',
                  reasoning = ''r''\<rparr>, timestamp = 2\<rparr>,
      \<lparr>item_id = ''1'', originalInput = ''a'',
        result = \<lparr>originalTranslation = ''A'', goldenPrompt = ''AA'', category = ''k'',
                  reasoning = ''r''\<rparr>, timestamp = 1\<rparr>])
     \<lparr>item_id = ''1'', originalInput = ''a'',
        result = \<lparr>originalTranslation = ''A'', goldenPrompt = ''AA'', category = ''k'',
                  reasoning = ''r''\<rparr>, timestamp = 1\<rparr> = 1"
  using handleDeleteHistoryItem_exact [of "''2''"
     "[\<lparr>item_id = ''3'', originalInput = ''c'',
        result = \<lparr>originalTranslation = ''C'', goldenPrompt = ''CC'', category = ''k'',
                  reasoning = ''r''\<rparr>, timestamp = 3\<rparr>,
      \<lparr>item_id = ''2'', originalInput = ''b'',
        result = \<lparr>originalTranslation = ''B'', goldenPrompt = ''BB'', category = ''k'',
                  reasoning = ''r''\<rparr>, timestamp = 2\<rparr>,
      \<lparr>item_id = ''1'', originalInput = ''a'',
        result = \<lparr>originalTranslation = ''A'', goldenPrompt = ''AA'', category = ''k'',
                  reasoning = ''r''\<rparr>, timestamp = 1\<rparr>]"]
  by (simp add: handleDeleteHistoryItem_def)

subsection \<open>Transcript fragments\<close>

lemma onmessage_fragment: "onmessage (fragment_message f) buffer = buffer @ f"
  by (simp add: onmessage_def fragment_message_def)

lemma deliver_fragments:
  "deliver (map fragment_message fs) buffer = buffer @ concat fs"
  by (induction fs arbitrary: buffer) (simp_all add: onmessage_fragment)

text \<open>
  C3. For every sequence of transcript fragments \<open>f1, ..., fn\<close> (\<open>n \<ge> 0\<close>) delivered in
  order to the message handler, the input buffer afterwards is the buffer before followed
  by \<open>f1 + ... + fn\<close>: each fragment is appended as it is, in arrival order. Starting from
  the empty buffer the result is the concatenation itself, and with no fragment the
  buffer is unchanged.
\<close>

theorem transcript_fragments_concatenate:
  "deliver (map fragment_message fs) buffer = buffer @ concat fs \<and>
   deliver (map fragment_message fs) [] = concat fs \<and>
   deliver (map fragment_message []) buffer = buffer"
  by (simp add: deliver_fragments)

subsection \<open>The PCM encoder\<close>

lemma int16_loop_map:
  "i \<le> length samples \<Longrightarrow> length int16 = length samples \<Longrightarrow>
   int16_loop samples i int16 = take i int16 @ map pcm_sample (drop i samples)"
proof (induction samples i int16 rule: int16_loop.induct)
  case (1 samples i int16)
  show ?case
  proof (cases "i < length samples")
    case True
    let ?int16' = "int16[i := pcm_sample (samples ! i)]"
    have "int16_loop samples i int16 = int16_loop samples (Suc i) ?int16'"
      using True by (subst int16_loop.simps) simp
    also have "\<dots> = take (Suc i) ?int16' @ map pcm_sample (drop (Suc i) samples)"
      using "1.IH" [OF True] True "1.prems" by simp
    also have "take (Suc i) ?int16' = take i int16 @ [pcm_sample (samples ! i)]"
      using True "1.prems" by (simp add: take_Suc_conv_app_nth)
    also have "(take i int16 @ [pcm_sample (samples ! i)]) @ map pcm_sample (drop (Suc i) samples)
        = take i int16 @ map pcm_sample (drop i samples)"
      using True by (simp add: Cons_nth_drop_Suc [symmetric])
    finally show ?thesis .
  next
    case False
    then show ?thesis using "1.prems" by (subst int16_loop.simps) simp
  qed
qed

lemma createBlob_int16_map: "createBlob_int16 frame = map pcm_sample frame"
  by (simp add: createBlob_int16_def int16_loop_map)

lemma binary_loop_map:
  "binary_loop uint8 i binary = binary @ map fromCharCode (drop i uint8)"
proof (induction uint8 i binary rule: binary_loop.induct)
  case (1 uint8 i binary)
  show ?case
  proof (cases "i < length uint8")
    case True
    have "binary_loop uint8 i binary
        = binary_loop uint8 (Suc i) (binary @ [fromCharCode (uint8 ! i)])"
      using True by (subst binary_loop.simps) simp
    also have "\<dots> = (binary @ [fromCharCode (uint8 ! i)]) @ map fromCharCode (drop (Suc i) uint8)"
      using "1.IH" [OF True] by simp
    also have "\<dots> = binary @ map fromCharCode (drop i uint8)"
      using True by (simp add: Cons_nth_drop_Suc [symmetric])
    finally show ?thesis .
  next
    case False
    then show ?thesis by (subst binary_loop.simps) simp
  qed
qed

lemma createBlob_uint8_map:
  "createBlob_uint8 frame = concat (map (bytes_of_int16 \<circ> pcm_sample) frame)"
  by (simp add: createBlob_uint8_def Uint8Array_of_buffer_def createBlob_int16_map)

lemma createBlob_binary_map:
  "createBlob_binary frame = map fromCharCode (createBlob_uint8 frame)"
  by (simp add: createBlob_binary_def binary_loop_map)

lemma length_Uint8Array_of_buffer: "length (Uint8Array_of_buffer int16) = 2 * length int16"
  by (induction int16) (simp_all add: Uint8Array_of_buffer_def bytes_of_int16_def)

lemma length_createBlob_uint8: "length (createBlob_uint8 frame) = 2 * length frame"
  by (simp add: createBlob_uint8_def length_Uint8Array_of_buffer createBlob_int16_map)

lemma length_createBlob_binary: "length (createBlob_binary frame) = 2 * length frame"
  by (simp add: createBlob_binary_map length_createBlob_uint8)

lemma charCodeAt_fromCharCode: "charCodeAt (fromCharCode b) = b"
proof -
  have "unat b < 256"
    using unsigned_less [of b, where ?'a = nat] by simp
  then show ?thesis
    by (simp add: charCodeAt_def fromCharCode_def)
qed

lemma index_of_nth:
  "distinct xs \<Longrightarrow> n < length xs \<Longrightarrow> index_of xs (xs ! n) = Some n"
proof (induction xs arbitrary: n)
  case Nil
  then show ?case by simp
next
  case (Cons x xs)
  show ?case
  proof (cases n)
    case 0
    then show ?thesis by simp
  next
    case (Suc m)
    with Cons.prems have "xs ! m \<in> set xs" by simp
    with Cons.prems have "x \<noteq> xs ! m" by auto
    with Cons Suc show ?thesis by simp
  qed
qed

lemma length_base64_alphabet: "length base64_alphabet = 64"
  by (simp add: base64_alphabet_def)

lemma distinct_base64_alphabet: "distinct base64_alphabet"
  by (simp add: base64_alphabet_def)

lemma pad_not_in_base64_alphabet: "CHR ''='' \<notin> set base64_alphabet"
  by (simp add: base64_alphabet_def)

lemma base64_value_char: "n < 64 \<Longrightarrow> base64_value (base64_char n) = Some n"
  by (simp add: base64_value_def base64_char_def index_of_nth distinct_base64_alphabet
      length_base64_alphabet)

lemma base64_char_not_pad: "n < 64 \<Longrightarrow> base64_char n \<noteq> CHR ''=''"
proof -
  assume "n < 64"
  then have "base64_alphabet ! n \<in> set base64_alphabet"
    by (simp add: length_base64_alphabet)
  with pad_not_in_base64_alphabet show ?thesis
    by (auto simp: base64_char_def)
qed

lemma sextet1: "(a::nat) < 256 \<Longrightarrow> a div 4 < 64"
  by simp

lemma sextet2: "(b::nat) < 256 \<Longrightarrow> (a mod 4) * 16 + b div 16 < 64"
proof -
  assume "b < 256"
  then have "b div 16 < 16" by simp
  moreover have "a mod 4 < 4" by simp
  ultimately show ?thesis by simp
qed

lemma sextet3: "(c::nat) < 256 \<Longrightarrow> (b mod 16) * 4 + c div 64 < 64"
proof -
  assume "c < 256"
  then have "c div 64 < 4" by simp
  moreover have "b mod 16 < 16" by simp
  ultimately show ?thesis by simp
qed

lemma sextet2_padded: "((a::nat) mod 4) * 16 < 64"
proof -
  have "a mod 4 < 4" by simp
  then show ?thesis by simp
qed

lemma sextet3_padded: "((b::nat) mod 16) * 4 < 64"
proof -
  have "b mod 16 < 16" by simp
  then show ?thesis by simp
qed

lemma octet1: "(b::nat) < 256 \<Longrightarrow> (a div 4) * 4 + ((a mod 4) * 16 + b div 16) div 16 = a"
proof -
  assume "b < 256"
  then have "b div 16 < 16" by simp
  then have "((a mod 4) * 16 + b div 16) div 16 = a mod 4" by simp
  then show ?thesis by simp
qed

lemma octet2: "(b::nat) < 256 \<Longrightarrow> (c::nat) < 256 \<Longrightarrow>
      (((a mod 4) * 16 + b div 16) mod 16) * 16 + ((b mod 16) * 4 + c div 64) div 4 = b"
proof -
  assume "b < 256" "c < 256"
  then have b: "b div 16 < 16" and c: "c div 64 < 4" by simp_all
  from b have "((a mod 4) * 16 + b div 16) mod 16 = b div 16" by simp
  moreover from c have "((b mod 16) * 4 + c div 64) div 4 = b mod 16" by simp
  ultimately show ?thesis by simp
qed

lemma octet3: "(c::nat) < 256 \<Longrightarrow> (((b mod 16) * 4 + c div 64) mod 4) * 64 + c mod 64 = c"
proof -
  assume "c < 256"
  then have c: "c div 64 < 4" by simp
  then have "((b mod 16) * 4 + c div 64) mod 4 = c div 64" by simp
  then show ?thesis by simp
qed

lemma octet2_padded:
  "(b::nat) < 256 \<Longrightarrow> (((a mod 4) * 16 + b div 16) mod 16) * 16 + ((b mod 16) * 4) div 4 = b"
proof -
  assume "b < 256"
  then have b: "b div 16 < 16" by simp
  then have "((a mod 4) * 16 + b div 16) mod 16 = b div 16" by simp
  then show ?thesis by simp
qed

lemma atob_codes_quad:
  assumes "base64_value c1 = Some v1" "base64_value c2 = Some v2"
    "base64_value c3 = Some v3" "base64_value c4 = Some v4"
    "c3 \<noteq> CHR ''=''" "c4 \<noteq> CHR ''=''"
  shows "atob_codes (c1 # c2 # c3 # c4 # rest) =
    map_option (\<lambda>bytes. (v1 * 4 + v2 div 16) # ((v2 mod 16) * 16 + v3 div 4) #
                           ((v3 mod 4) * 64 + v4) # bytes) (atob_codes rest)"
  using assms by simp

lemma atob_codes_pad1:
  assumes "base64_value c1 = Some v1" "base64_value c2 = Some v2"
    "base64_value c3 = Some v3" "c3 \<noteq> CHR ''=''" "v3 mod 4 = 0"
  shows "atob_codes [c1, c2, c3, CHR ''=''] =
    Some [v1 * 4 + v2 div 16, (v2 mod 16) * 16 + v3 div 4]"
  using assms by simp

lemma atob_codes_pad2:
  assumes "base64_value c1 = Some v1" "base64_value c2 = Some v2" "v2 mod 16 = 0"
  shows "atob_codes [c1, c2, CHR ''='', CHR ''=''] = Some [v1 * 4 + v2 div 16]"
  using assms by simp

lemma atob_btoa_codes:
  "\<forall>b \<in> set bs. b < 256 \<Longrightarrow> atob_codes (btoa_codes bs) = Some bs"
proof (induction bs rule: btoa_codes.induct)
  case (1 a b c rest)
  then have lt: "a < 256" "b < 256" "c < 256" and rest: "\<forall>b \<in> set rest. b < 256"
    by simp_all
  have "atob_codes (btoa_codes (a # b # c # rest)) =
      atob_codes (base64_char (a div 4) # base64_char ((a mod 4) * 16 + b div 16) #
        base64_char ((b mod 16) * 4 + c div 64) # base64_char (c mod 64) # btoa_codes rest)"
    by simp
  also have "\<dots> = map_option (\<lambda>bytes. ((a div 4) * 4 + ((a mod 4) * 16 + b div 16) div 16) #
        ((((a mod 4) * 16 + b div 16) mod 16) * 16 + ((b mod 16) * 4 + c div 64) div 4) #
        ((((b mod 16) * 4 + c div 64) mod 4) * 64 + c mod 64) # bytes)
      (atob_codes (btoa_codes rest))"
    using lt
    by (intro atob_codes_quad base64_value_char base64_char_not_pad sextet1 sextet2 sextet3)
      simp_all
  also have "\<dots> = Some (a # b # c # rest)"
    using "1.IH" [OF rest] lt by (simp add: octet1 octet2 octet3)
  finally show ?case .
next
  case (2 a b)
  then have lt: "a < 256" "b < 256" by simp_all
  have "atob_codes (btoa_codes [a, b]) =
      atob_codes [base64_char (a div 4), base64_char ((a mod 4) * 16 + b div 16),
        base64_char ((b mod 16) * 4), CHR ''='']"
    by simp
  also have "\<dots> = Some [(a div 4) * 4 + ((a mod 4) * 16 + b div 16) div 16,
        (((a mod 4) * 16 + b div 16) mod 16) * 16 + ((b mod 16) * 4) div 4]"
    using lt
    by (intro atob_codes_pad1 base64_value_char base64_char_not_pad sextet1 sextet2
        sextet3_padded) simp_all
  also have "\<dots> = Some [a, b]"
    using lt by (simp add: octet1 octet2_padded)
  finally show ?case .
next
  case (3 a)
  then have lt: "a < 256" by simp
  have "atob_codes (btoa_codes [a]) =
      atob_codes [base64_char (a div 4), base64_char ((a mod 4) * 16), CHR ''='', CHR ''='']"
    by simp
  also have "\<dots> = Some [(a div 4) * 4 + ((a mod 4) * 16) div 16]"
    using lt
    by (intro atob_codes_pad2 base64_value_char sextet1 sextet2_padded) simp_all
  also have "\<dots> = Some [a]"
    by simp
  finally show ?case .
next
  case 4
  then show ?case by simp
qed

lemma atob_btoa: "atob (btoa binary) = Some binary"
proof -
  have "\<forall>b \<in> set (map of_char binary). b < (256::nat)"
    by simp
  then have "atob_codes (btoa_codes (map of_char binary)) = Some (map of_char binary)"
    by (rule atob_btoa_codes)
  then show ?thesis
    by (simp add: atob_def btoa_def comp_def)
qed

lemma js_truncate_bounds: "- 32767 \<le> r \<Longrightarrow> r \<le> 32767 \<Longrightarrow> - 32767 \<le> js_truncate r \<and> js_truncate r \<le> 32767"
  unfolding js_truncate_def by (auto simp: le_floor_iff ceiling_le_iff)

lemma sint_int16_small: "- 32767 \<le> k \<Longrightarrow> k \<le> 32767 \<Longrightarrow> sint (word_of_int k :: 16 word) = k"
  by (simp add: sint_sbintrunc' signed_take_bit_int_eq_self)

lemma clamp_scaled_bounds:
  fixes r :: rat
  shows "- 32767 \<le> max (- 1) (min 1 r) * 32767" "max (- 1) (min 1 r) * 32767 \<le> 32767"
  by (simp_all add: max_def min_def)

lemma pcm_sample_Finite:
  "pcm_sample (Finite r) = word_of_int (js_truncate (max (- 1) (min 1 r) * 32767))"
  by (simp add: pcm_sample_def)

lemma sint_pcm_sample_Finite:
  "sint (pcm_sample (Finite r)) = js_truncate (max (- 1) (min 1 r) * 32767)"
  using js_truncate_bounds [OF clamp_scaled_bounds, of r]
  by (simp add: pcm_sample_Finite sint_int16_small)

lemma js_truncate_int: "js_truncate (of_int k) = k"
  by (simp add: js_truncate_def)

lemma sint_pcm_sample:
  "sint (pcm_sample x) =
    (case x of NaN \<Rightarrow> 0 | PosInfinity \<Rightarrow> 32767 | NegInfinity \<Rightarrow> - 32767
     | Finite r \<Rightarrow> js_truncate (max (- 1) (min 1 r) * 32767))"
proof (cases x)
  case NaN
  then show ?thesis by (simp add: pcm_sample_def)
next
  case PosInfinity
  have "js_truncate 32767 = 32767" using js_truncate_int [of 32767] by simp
  with PosInfinity show ?thesis by (simp add: pcm_sample_def)
next
  case NegInfinity
  have "js_truncate (- 32767) = - 32767" using js_truncate_int [of "- 32767"] by simp
  with NegInfinity show ?thesis by (simp add: pcm_sample_def)
next
  case (Finite r)
  then show ?thesis by (simp add: sint_pcm_sample_Finite)
qed

lemma sint_pcm_sample_range: "- 32767 \<le> sint (pcm_sample x) \<and> sint (pcm_sample x) \<le> 32767"
proof (cases x)
  case (Finite r)
  then show ?thesis
    using js_truncate_bounds [OF clamp_scaled_bounds, of r] by (simp add: sint_pcm_sample_Finite)
qed (simp_all add: sint_pcm_sample)

lemma uint_low_byte: "uint (ucast (w :: 16 word) :: 8 word) = uint w mod 256"
  by (simp add: unsigned_ucast_eq take_bit_eq_mod)

lemma uint_high_byte: "uint (ucast (drop_bit 8 (w :: 16 word)) :: 8 word) = uint w div 256"
proof -
  have "uint w < 65536"
    using uint_bounded [of w] by simp
  then have small: "uint w div 256 < 256"
    by simp
  have nonneg: "0 \<le> uint w div 256"
    by (rule pos_imp_zdiv_nonneg_iff [THEN iffD2]) simp_all
  have "uint (drop_bit 8 w) = uint w div 256"
    by (simp add: drop_bit_eq_div uint_div)
  then have "uint (ucast (drop_bit 8 w) :: 8 word) = (uint w div 256) mod 256"
    using uint_low_byte [of "drop_bit 8 w"] by simp
  also have "\<dots> = uint w div 256"
    by (rule mod_pos_pos_trivial [OF nonneg small])
  finally show ?thesis .
qed

lemma bytes_of_int16_little_endian:
  "uint (bytes_of_int16 w ! 0) + 256 * uint (bytes_of_int16 w ! 1) = uint w"
proof -
  have "uint (ucast w :: 8 word) + 256 * uint (ucast (drop_bit 8 w) :: 8 word)
      = uint w mod 256 + 256 * (uint w div 256)"
    by (simp only: uint_high_byte uint_low_byte [of w])
  also have "\<dots> = uint w"
    by simp
  finally show ?thesis
    by (simp add: bytes_of_int16_def)
qed

lemma concat_pairs_nth:
  assumes "\<And>x. length (f x) = 2" "i < length xs"
  shows "concat (map f xs) ! (2 * i) = f (xs ! i) ! 0"
    and "concat (map f xs) ! (2 * i + 1) = f (xs ! i) ! 1"
  using assms(2)
proof (induction xs arbitrary: i)
  case Nil
  {
    case 1
    then show ?case by simp
  next
    case 2
    then show ?case by simp
  }
next
  case (Cons x xs)
  {
    case 1
    then show ?case
      using Cons.IH(1) assms(1) [of x] by (cases i) (simp_all add: nth_append)
  next
    case 2
    then show ?case
      using Cons.IH(2) assms(1) [of x] by (cases i) (simp_all add: nth_append)
  }
qed

lemma createBlob_uint8_little_endian:
  assumes "i < length frame"
  shows "uint (createBlob_uint8 frame ! (2 * i)) + 256 * uint (createBlob_uint8 frame ! (2 * i + 1))
    = uint (pcm_sample (frame ! i))"
proof -
  have len: "\<And>x. length ((bytes_of_int16 \<circ> pcm_sample) x) = 2"
    by (simp add: bytes_of_int16_def)
  show ?thesis
    using concat_pairs_nth [of "bytes_of_int16 \<circ> pcm_sample", OF len assms]
      bytes_of_int16_little_endian [of "pcm_sample (frame ! i)"]
    by (simp add: createBlob_uint8_map)
qed

text \<open>
  C1. For every frame of \<open>N\<close> samples, decoding the base64 text of the chunk gives back
  the binary string that was encoded, whose character codes are the bytes of the PCM
  payload, and that payload has exactly \<open>2N\<close> bytes; the chunk carries the mime type
  \<open>audio/pcm;rate=16000\<close>.
\<close>

theorem createBlob_base64_roundtrip:
  "atob (data (createBlob frame)) = Some (createBlob_binary frame) \<and>
   map charCodeAt (createBlob_binary frame) = createBlob_uint8 frame \<and>
   length (createBlob_uint8 frame) = 2 * length frame \<and>
   mimeType (createBlob frame) = ''audio/pcm;rate=16000''"
  by (simp add: createBlob_def atob_btoa createBlob_binary_map comp_def
      charCodeAt_fromCharCode length_createBlob_uint8)

text \<open>
  C2. For every sample value, also outside \<open>[-1, 1]\<close>, the stored 16-bit integer lies in
  \<open>[-32767, 32767]\<close> and is the truncation of the clamped sample times 32767, with no
  wrap-around (an infinity is clamped like any value beyond the range, not-a-number is
  stored as 0); the array after the loop holds that integer for every sample, and the
  bytes at \<open>2i\<close> and \<open>2i + 1\<close> are its low and high byte.
\<close>

theorem pcm_sample_clamped:
  "- 32767 \<le> sint (pcm_sample x) \<and> sint (pcm_sample x) \<le> 32767 \<and>
   sint (pcm_sample x) =
     (case x of NaN \<Rightarrow> 0 | PosInfinity \<Rightarrow> 32767 | NegInfinity \<Rightarrow> - 32767
      | Finite r \<Rightarrow> js_truncate (max (- 1) (min 1 r) * 32767)) \<and>
   createBlob_int16 frame = map pcm_sample frame \<and>
   (\<forall>i < length frame.
      uint (createBlob_uint8 frame ! (2 * i)) + 256 * uint (createBlob_uint8 frame ! (2 * i + 1))
        = uint (createBlob_int16 frame ! i))"
proof (intro conjI allI impI)
  show "- 32767 \<le> sint (pcm_sample x)" "sint (pcm_sample x) \<le> 32767"
    using sint_pcm_sample_range [of x] by (rule conjunct1, rule conjunct2)
  show "sint (pcm_sample x) =
     (case x of NaN \<Rightarrow> 0 | PosInfinity \<Rightarrow> 32767 | NegInfinity \<Rightarrow> - 32767
      | Finite r \<Rightarrow> js_truncate (max (- 1) (min 1 r) * 32767))"
    by (rule sint_pcm_sample)
  show "createBlob_int16 frame = map pcm_sample frame"
    by (rule createBlob_int16_map)
next
  fix i
  assume i: "i < length frame"
  then have "createBlob_int16 frame ! i = pcm_sample (frame ! i)"
    by (simp only: createBlob_int16_map nth_map)
  with createBlob_uint8_little_endian [OF i]
  show "uint (createBlob_uint8 frame ! (2 * i)) + 256 * uint (createBlob_uint8 frame ! (2 * i + 1))
        = uint (createBlob_int16 frame ! i)"
    by (simp only:)
qed

theorem pcm_sample_clamped_witness:
  "(1::nat) < length [Finite 2, Finite (- 1 / 2)] \<and>
   sint (pcm_sample (Finite 2)) = 32767 \<and>
   map sint (createBlob_int16 [Finite 2, Finite (- 1 / 2)]) = [32767, - 16383] \<and>
   createBlob_uint8 [Finite 2, Finite (- 1 / 2)] = [255, 127, 1, 192] \<and>
   uint (createBlob_uint8 [Finite 2, Finite (- 1 / 2)] ! (2 * 1))
     + 256 * uint (createBlob_uint8 [Finite 2, Finite (- 1 / 2)] ! (2 * 1 + 1))
     = uint (createBlob_int16 [Finite 2, Finite (- 1 / 2)] ! 1)"
proof -
  have len: "(1::nat) < length [Finite 2, Finite (- 1 / 2)]"
    by simp
  have s: "sint (pcm_sample (Finite 2)) = 32767"
    by code_simp
  have i16: "map sint (createBlob_int16 [Finite 2, Finite (- 1 / 2)]) = [32767, - 16383]"
    by code_simp
  have u8: "createBlob_uint8 [Finite 2, Finite (- 1 / 2)] = [255, 127, 1, 192]"
    by code_simp
  from pcm_sample_clamped [of "Finite 2" "[Finite 2, Finite (- 1 / 2)]"] len
  have "uint (createBlob_uint8 [Finite 2, Finite (- 1 / 2)] ! (2 * 1))
     + 256 * uint (createBlob_uint8 [Finite 2, Finite (- 1 / 2)] ! (2 * 1 + 1))
     = uint (createBlob_int16 [Finite 2, Finite (- 1 / 2)] ! 1)"
    by blast
  with len s i16 u8 show ?thesis
    by blast
qed


subsection \<open>Teardown of the audio resources\<close>



























lemma cleanupAudio_active_state:
  "cleanupAudio [] active_state =
    (active_state\<lparr>released := [ProcessorDisconnect 1, SourceDisconnect 2, TrackStop 3,
                                  ContextClose 4],
       processorRef := None, sourceRef := None, streamRef := None, audioContextRef := None\<rparr>,
     None)"
  by (simp add: cleanupAudio_def and_then_def release_processor_def release_source_def
      release_stream_def release_context_def active_state_def)









lemma released_catch_state:
  "released (s\<lparr>console := c, alerts := a, isRecording := r\<rparr>) = released s"
  by simp







subsection \<open>Conversion and history\<close>

lemma gp_error_not_empty: "gp_error (generateGoldenPrompt answer) \<noteq> Some []"
  by (simp add: generateGoldenPrompt_def caught_def split: api_answer.splits parsed.splits)

lemma handleConvert_success:
  assumes "trim (inputText s) \<noteq> []"
    and "\<not> truthy (gp_error (generateGoldenPrompt answer))"
    and "gp_data (generateGoldenPrompt answer) = Some r"
  shows "handleConvert answer now_id now_timestamp s =
    s\<lparr>conversionState :=
        \<lparr>isLoading = False, cs_result = Some r, cs_error = None,
         cs_sources = gp_sources (generateGoldenPrompt answer)\<rparr>,
      history := \<lparr>item_id = number_toString now_id, originalInput = inputText s, result = r,
                  timestamp = now_timestamp\<rparr> # history s\<rparr>"
  using assms by (simp add: handleConvert_def addToHistory_def Let_def)

lemma handleConvert_failure:
  assumes "trim (inputText s) \<noteq> []"
    and "truthy (gp_error (generateGoldenPrompt answer)) \<or> gp_data (generateGoldenPrompt answer) = None"
  shows "handleConvert answer now_id now_timestamp s =
    s\<lparr>conversionState := (conversionState s)
        \<lparr>isLoading := False,
         cs_error := Some (if truthy (gp_error (generateGoldenPrompt answer))
                           then the (gp_error (generateGoldenPrompt answer))
                           else ''Failed to generate.'')\<rparr>\<rparr>"
  using assms by (auto simp add: handleConvert_def Let_def)

text \<open>
  C6. For every conversion request with grounding disabled (a request is made when the
  input is not blank), the conversion call carries no grounding tool. On success a
  history item with exactly the input text and the returned result is added, in front
  of the items there were. On failure (an error, or no data) the history is unchanged,
  the result shown before stays, and the error string is stored for display: the error
  of the call (the message of a thrown error, as it is), or \<open>Failed to generate.\<close> when
  there is none.
\<close>

theorem handleConvert_grounding_disabled:
  "trim (inputText s) \<noteq> [] \<and> \<not> useGrounding s \<longrightarrow>
     map_option tools (handleConvert_request s) = Some [] \<and>
     map_option contents (handleConvert_request s) = Some (inputText s) \<and>
     (\<not> truthy (gp_error (generateGoldenPrompt answer)) \<and>
      gp_data (generateGoldenPrompt answer) = Some r \<longrightarrow>
        history (handleConvert answer now_id now_timestamp s) =
          \<lparr>item_id = number_toString now_id, originalInput = inputText s, result = r,
           timestamp = now_timestamp\<rparr> # history s \<and>
        cs_result (conversionState (handleConvert answer now_id now_timestamp s)) = Some r \<and>
        cs_error (conversionState (handleConvert answer now_id now_timestamp s)) = None) \<and>
     (truthy (gp_error (generateGoldenPrompt answer)) \<or>
      gp_data (generateGoldenPrompt answer) = None \<longrightarrow>
        history (handleConvert answer now_id now_timestamp s) = history s \<and>
        cs_result (conversionState (handleConvert answer now_id now_timestamp s)) =
          cs_result (conversionState s) \<and>
        cs_error (conversionState (handleConvert answer now_id now_timestamp s)) =
          Some (if truthy (gp_error (generateGoldenPrompt answer))
                then the (gp_error (generateGoldenPrompt answer))
                else ''Failed to generate.'')) \<and>
     (message \<noteq> [] \<longrightarrow>
        history (handleConvert (ApiThrows message) now_id now_timestamp s) = history s \<and>
        cs_error (conversionState (handleConvert (ApiThrows message) now_id now_timestamp s)) =
          Some message)"
proof (intro impI conjI; elim conjE)
  assume input: "trim (inputText s) \<noteq> []" and off: "\<not> useGrounding s"
  from input off show "map_option tools (handleConvert_request s) = Some []"
    by (simp add: handleConvert_request_def generateContent_request_def)
  from input show "map_option contents (handleConvert_request s) = Some (inputText s)"
    by (simp add: handleConvert_request_def generateContent_request_def)
next
  assume input: "trim (inputText s) \<noteq> []"
    and ok: "\<not> truthy (gp_error (generateGoldenPrompt answer))"
      "gp_data (generateGoldenPrompt answer) = Some r"
  note eq = handleConvert_success [OF input ok, of now_id now_timestamp]
  show "history (handleConvert answer now_id now_timestamp s) =
          \<lparr>item_id = number_toString now_id, originalInput = inputText s, result = r,
           timestamp = now_timestamp\<rparr> # history s"
    by (simp add: eq)
  show "cs_result (conversionState (handleConvert answer now_id now_timestamp s)) = Some r"
    by (simp add: eq)
  show "cs_error (conversionState (handleConvert answer now_id now_timestamp s)) = None"
    by (simp add: eq)
next
  assume input: "trim (inputText s) \<noteq> []"
    and bad: "truthy (gp_error (generateGoldenPrompt answer)) \<or>
      gp_data (generateGoldenPrompt answer) = None"
  note eq = handleConvert_failure [OF input bad, of now_id now_timestamp]
  show "history (handleConvert answer now_id now_timestamp s) = history s"
    by (simp add: eq)
  show "cs_result (conversionState (handleConvert answer now_id now_timestamp s)) =
          cs_result (conversionState s)"
    by (simp add: eq)
  show "cs_error (conversionState (handleConvert answer now_id now_timestamp s)) =
          Some (if truthy (gp_error (generateGoldenPrompt answer))
                then the (gp_error (generateGoldenPrompt answer))
                else ''Failed to generate.'')"
    by (simp add: eq)
next
  assume input: "trim (inputText s) \<noteq> []" and message: "message \<noteq> []"
  then have bad: "truthy (gp_error (generateGoldenPrompt (ApiThrows message))) \<or>
      gp_data (generateGoldenPrompt (ApiThrows message)) = None"
    by (simp add: generateGoldenPrompt_def caught_def)
  note eq = handleConvert_failure [OF input bad, of now_id now_timestamp]
  show "history (handleConvert (ApiThrows message) now_id now_timestamp s) = history s"
    by (simp add: eq)
  from message
  show "cs_error (conversionState (handleConvert (ApiThrows message) now_id now_timestamp s)) =
          Some message"
    by (simp add: eq generateGoldenPrompt_def caught_def truthy_def)
qed

theorem handleConvert_grounding_disabled_witness:
  "trim (inputText example_app) \<noteq> [] \<and> \<not> useGrounding example_app \<and>
   map_option tools (handleConvert_request example_app) = Some [] \<and>
   history (handleConvert (ApiResponse (Some ''{...}'') (Parsed example_result) None)
              1700000000000 1700000000001 example_app) =
     [\<lparr>item_id = ''1700000000000'', originalInput = ''Oka pilla akasamlo egurutundi'',
       result = example_result, timestamp = 1700000000001\<rparr>] \<and>
   history (handleConvert (ApiThrows ''quota exceeded'') 1700000000000 1700000000001
              example_app) = [] \<and>
   cs_error (conversionState (handleConvert (ApiThrows ''quota exceeded'') 1700000000000
              1700000000001 example_app)) = Some ''quota exceeded''"
proof -
  have input: "trim (inputText example_app) \<noteq> []"
    by (simp add: example_app_def trim_def is_whitespace_def)
  have off: "\<not> useGrounding example_app"
    by (simp add: example_app_def)
  have ok: "\<not> truthy (gp_error (generateGoldenPrompt
        (ApiResponse (Some ''{...}'') (Parsed example_result) None)))"
    "gp_data (generateGoldenPrompt (ApiResponse (Some ''{...}'') (Parsed example_result) None))
      = Some example_result"
    by (simp_all add: generateGoldenPrompt_def truthy_def)
  have bad: "truthy (gp_error (generateGoldenPrompt (ApiThrows ''quota exceeded'')))"
    "the (gp_error (generateGoldenPrompt (ApiThrows ''quota exceeded''))) = ''quota exceeded''"
    by (simp_all add: generateGoldenPrompt_def caught_def truthy_def)
  have id: "number_toString 1700000000000 = ''1700000000000''"
    by (simp add: number_toString_def decimal.simps digit_char_def)
  have fields: "inputText example_app = ''Oka pilla akasamlo egurutundi''"
    "history example_app = []"
    by (simp_all add: example_app_def)
  from handleConvert_grounding_disabled
      [of example_app "ApiResponse (Some ''{...}'') (Parsed example_result) None"
        example_result 1700000000000 1700000000001 "''quota exceeded''"]
    handleConvert_grounding_disabled
      [of example_app "ApiThrows ''quota exceeded''" example_result 1700000000000 1700000000001
        "''quota exceeded''"]
    input off ok bad id fields
  show ?thesis
    by simp
qed


subsection \<open>Chat failures\<close>

lemma handleSend_failure:
  assumes "trim (chat_input s) \<noteq> []" "\<not> chat_isLoading s"
  shows "handleSend (Inl message) now1 now2 now3 now4 s =
    s\<lparr>messages := messages s @
          [\<lparr>chat_id = number_toString now1, chat_role = User, chat_text = chat_input s,
            chat_timestamp = now2\<rparr>],
      chat_input := [],
      chat_console := chat_console s @ [''Chat error '' @ message],
      chat_isLoading := False\<rparr>"
  using assms by (simp add: handleSend_def sendChatMessage_def Let_def)

text \<open>
  A failed send shows nothing of the failure: the chat window holds the user's message
  only, and the error went to the console.
\<close>

theorem handleSend_failure_not_shown:
  "shown_texts (chat_view (handleSend (Inl ''quota exceeded'') 1700000000000 1700000000000
      1700000000900 1700000000900 example_chat)) = [''What is a golden prompt?''] \<and>
   chat_console (handleSend (Inl ''quota exceeded'') 1700000000000 1700000000000
      1700000000900 1700000000900 example_chat) = [''Chat error quota exceeded'']"
  by (simp add: handleSend_def sendChatMessage_def Let_def example_chat_def trim_def
      is_whitespace_def chat_view_def)

text \<open>
  C9 (as amended). For every chat message send that fails, \<^verbatim>\<open>sendChatMessage\<close> throws an
  error with the message of the failure as it is, and \<^verbatim>\<open>handleSend\<close> writes it to the
  console: the user's message stays in the chat, no other message is added, the input
  is cleared and the loading indicator is off; what the chat window shows is the same
  whatever the error says.
\<close>

theorem handleSend_failure_logged:
  "trim (chat_input s) \<noteq> [] \<and> \<not> chat_isLoading s \<longrightarrow>
     sendChatMessage (Inl message) = Inl message \<and>
     messages (handleSend (Inl message) now1 now2 now3 now4 s) =
       messages s @
         [\<lparr>chat_id = number_toString now1, chat_role = User, chat_text = chat_input s,
           chat_timestamp = now2\<rparr>] \<and>
     chat_console (handleSend (Inl message) now1 now2 now3 now4 s) =
       chat_console s @ [''Chat error '' @ message] \<and>
     \<not> chat_isLoading (handleSend (Inl message) now1 now2 now3 now4 s) \<and>
     chat_input (handleSend (Inl message) now1 now2 now3 now4 s) = [] \<and>
     chat_view (handleSend (Inl message) now1 now2 now3 now4 s) =
       chat_view (handleSend (Inl other_message) now1 now2 now3 now4 s)"
proof (intro impI, elim conjE)
  assume a: "trim (chat_input s) \<noteq> []" "\<not> chat_isLoading s"
  note eq = handleSend_failure [OF a, of _ now1 now2 now3 now4]
  show "sendChatMessage (Inl message) = Inl message \<and>
     messages (handleSend (Inl message) now1 now2 now3 now4 s) =
       messages s @
         [\<lparr>chat_id = number_toString now1, chat_role = User, chat_text = chat_input s,
           chat_timestamp = now2\<rparr>] \<and>
     chat_console (handleSend (Inl message) now1 now2 now3 now4 s) =
       chat_console s @ [''Chat error '' @ message] \<and>
     \<not> chat_isLoading (handleSend (Inl message) now1 now2 now3 now4 s) \<and>
     chat_input (handleSend (Inl message) now1 now2 now3 now4 s) = [] \<and>
     chat_view (handleSend (Inl message) now1 now2 now3 now4 s) =
       chat_view (handleSend (Inl other_message) now1 now2 now3 now4 s)"
    by (simp add: eq sendChatMessage_def chat_view_def)
qed

theorem handleSend_failure_logged_witness:
  "trim (chat_input example_chat) \<noteq> [] \<and> \<not> chat_isLoading example_chat \<and>
   messages (handleSend (Inl ''quota exceeded'') 1700000000000 1700000000000
      1700000000900 1700000000900 example_chat) =
     [\<lparr>chat_id = ''1700000000000'', chat_role = User, chat_text = ''What is a golden prompt?'',
       chat_timestamp = 1700000000000\<rparr>] \<and>
   chat_console (handleSend (Inl ''quota exceeded'') 1700000000000 1700000000000
      1700000000900 1700000000900 example_chat) = [''Chat error quota exceeded''] \<and>
   chat_view (handleSend (Inl ''quota exceeded'') 1700000000000 1700000000000
      1700000000900 1700000000900 example_chat) =
     chat_view (handleSend (Inl ''network down'') 1700000000000 1700000000000
      1700000000900 1700000000900 example_chat)"
proof -
  have input: "trim (chat_input example_chat) \<noteq> []"
    by (simp add: example_chat_def trim_def is_whitespace_def)
  have idle: "\<not> chat_isLoading example_chat"
    by (simp add: example_chat_def)
  have id: "number_toString 1700000000000 = ''1700000000000''"
    by (simp add: number_toString_def decimal.simps digit_char_def)
  have fields: "messages example_chat = []" "chat_console example_chat = []"
    "chat_input example_chat = ''What is a golden prompt?''"
    by (simp_all add: example_chat_def)
  from handleSend_failure_logged
      [of example_chat "''quota exceeded''" 1700000000000 1700000000000
        1700000000900 1700000000900 "''network down''"]
    input idle id fields
  show ?thesis
    by simp
qed

subsection \<open>JSON text and history persistence\<close>

lemma hex_value_hex_char: "d < 16 \<Longrightarrow> hex_value (hex_char d) = Some d"
proof -
  assume "d < 16"
  moreover have "distinct ''0123456789abcdef''" "length ''0123456789abcdef'' = 16"
    by simp_all
  ultimately have "index_of ''0123456789abcdef'' (''0123456789abcdef'' ! d) = Some d"
    by (intro index_of_nth) simp_all
  then show ?thesis
    by (simp add: hex_value_def hex_char_def)
qed

lemma parse_unicode_escape_control:
  assumes "(of_char c :: nat) < 32"
  shows "parse_unicode_escape
      [CHR ''0'', CHR ''0'', hex_char (of_char c div 16), hex_char (of_char c mod 16)] = Some c"
proof -
  have hi: "hex_value (hex_char (of_char c div 16)) = Some (of_char c div 16)"
    using assms by (intro hex_value_hex_char) simp
  have lo: "hex_value (hex_char (of_char c mod 16)) = Some (of_char c mod 16)"
    by (intro hex_value_hex_char) simp
  have zero: "hex_value CHR ''0'' = Some 0"
    by (simp add: hex_value_def)
  have "char_of (16 * (of_char c div 16) + of_char c mod 16 :: nat) = c"
    by simp
  with hi lo zero show ?thesis
    by (simp add: parse_unicode_escape_def)
qed

lemma parse_chars_quote_char:
  "parse_chars (quote_char c @ tail) =
    (case parse_chars tail of None \<Rightarrow> None | Some (t, rest) \<Rightarrow> Some (c # t, rest))"
proof -
  consider (short) "c \<in> {CHR 0x22, CHR 0x5C, CHR 0x08, CHR 0x0C, CHR 0x0A, CHR 0x0D, CHR 0x09}"
    | (ctl) "c \<notin> {CHR 0x22, CHR 0x5C, CHR 0x08, CHR 0x0C, CHR 0x0A, CHR 0x0D, CHR 0x09}"
        "(of_char c :: nat) < 32"
    | (plain) "c \<notin> {CHR 0x22, CHR 0x5C, CHR 0x08, CHR 0x0C, CHR 0x0A, CHR 0x0D, CHR 0x09}"
        "\<not> (of_char c :: nat) < 32"
    by blast
  then show ?thesis
  proof cases
    case short
    then show ?thesis
      by (elim insertE emptyE; hypsubst; simp add: quote_char_def unescape_def)
  next
    case ctl
    then have q: "quote_char c = [CHR 0x5C, CHR ''u'', CHR ''0'', CHR ''0'',
        hex_char (of_char c div 16), hex_char (of_char c mod 16)]"
      by (simp add: quote_char_def)
    show ?thesis
      using parse_unicode_escape_control [OF ctl(2)] by (simp add: q)
  next
    case plain
    then have q: "quote_char c = [c]"
      by (simp add: quote_char_def)
    from plain show ?thesis
      by (simp add: q)
  qed
qed

lemma parse_chars_quoted:
  "parse_chars (concat (map quote_char s) @ CHR 0x22 # rest) = Some (s, rest)"
  by (induction s) (simp_all add: parse_chars_quote_char)

lemma QuoteJSONString_Cons:
  "QuoteJSONString s @ rest = CHR 0x22 # (concat (map quote_char s) @ CHR 0x22 # rest)"
  by (simp add: QuoteJSONString_def)

lemma digit_char_props:
  assumes "d < 10"
  shows "is_digit (digit_char d)" and "digit_value (digit_char d) = d"
proof -
  have len: "length ''0123456789'' = 10" and dist: "distinct ''0123456789''"
    by simp_all
  from assms len have "''0123456789'' ! d \<in> set ''0123456789''"
    by (intro nth_mem) simp
  then show "is_digit (digit_char d)"
    by (simp only: is_digit_def digit_char_def)
  from assms have "index_of ''0123456789'' (''0123456789'' ! d) = Some d"
    by (intro index_of_nth dist) simp
  then show "digit_value (digit_char d) = d"
    by (simp only: digit_value_def digit_char_def option.case)
qed

lemma digit_char_zero: "d < 10 \<Longrightarrow> digit_char d = CHR ''0'' \<Longrightarrow> d = 0"
proof -
  assume d: "d < 10" and z: "digit_char d = CHR ''0''"
  have "digit_value (digit_char d) = d"
    using d by (rule digit_char_props(2))
  then have "digit_value CHR ''0'' = d"
    by (simp only: z)
  moreover have "digit_value CHR ''0'' = 0"
    by (simp add: digit_value_def)
  ultimately show "d = 0"
    by simp
qed

lemma decimal_small: "n < 10 \<Longrightarrow> decimal n = [digit_char n]"
  by (subst decimal.simps) simp

lemma decimal_large:
  "\<not> n < 10 \<Longrightarrow> decimal n = decimal (n div 10) @ [digit_char (n mod 10)]"
  by (subst decimal.simps) simp

lemma decimal_not_Nil: "decimal n \<noteq> []"
  by (cases "n < 10") (simp_all add: decimal_small decimal_large)

lemma decimal_digits: "c \<in> set (decimal n) \<Longrightarrow> is_digit c"
proof (induction n arbitrary: c rule: decimal.induct)
  case (1 n)
  show ?case
  proof (cases "n < 10")
    case True
    with "1.prems" show ?thesis
      by (simp add: decimal_small digit_char_props)
  next
    case False
    have "set (decimal n) = set (decimal (n div 10)) \<union> {digit_char (n mod 10)}"
      by (simp add: decimal_large [OF False])
    with "1.prems" have "c \<in> set (decimal (n div 10)) \<or> c = digit_char (n mod 10)"
      by blast
    then show ?thesis
    proof
      assume "c \<in> set (decimal (n div 10))"
      with False show ?thesis
        by (rule "1.IH")
    next
      assume "c = digit_char (n mod 10)"
      then show ?thesis
        by (simp add: digit_char_props)
    qed
  qed
qed

lemma digits_value_snoc: "digits_value (ds @ [c]) = 10 * digits_value ds + digit_value c"
  by (simp add: digits_value_def)

lemma digits_value_decimal: "digits_value (decimal n) = n"
proof (induction n rule: decimal.induct)
  case (1 n)
  show ?case
  proof (cases "n < 10")
    case True
    then show ?thesis
      by (simp add: decimal_small digits_value_def digit_char_props)
  next
    case False
    then show ?thesis
      using "1.IH" [OF False]
      by (simp add: decimal_large digits_value_snoc digit_char_props)
  qed
qed

lemma decimal_no_leading_zero: "hd (decimal n) = CHR ''0'' \<Longrightarrow> length (decimal n) = 1"
proof (induction n rule: decimal.induct)
  case (1 n)
  show ?case
  proof (cases "n < 10")
    case True
    then show ?thesis
      by (simp add: decimal_small)
  next
    case False
    then have "hd (decimal n) = hd (decimal (n div 10))"
      by (simp add: decimal_large decimal_not_Nil)
    with "1.prems" have z: "hd (decimal (n div 10)) = CHR ''0''"
      by simp
    with "1.IH" [OF False] have one: "length (decimal (n div 10)) = 1"
      by simp
    have "n div 10 < 10"
    proof (rule ccontr)
      assume "\<not> n div 10 < 10"
      then have "decimal (n div 10) = decimal (n div 10 div 10) @ [digit_char (n div 10 mod 10)]"
        by (rule decimal_large)
      with one decimal_not_Nil [of "n div 10 div 10"] show False
        by (cases "decimal (n div 10 div 10)") simp_all
    qed
    with z have "n div 10 = 0"
      by (simp add: decimal_small digit_char_zero)
    with False show ?thesis
      by simp
  qed
qed

lemma takeWhile_digits:
  assumes "\<forall>c \<in> set ds. is_digit c" "rest = [] \<or> \<not> is_digit (hd rest)"
  shows "takeWhile is_digit (ds @ rest) = ds" "dropWhile is_digit (ds @ rest) = rest"
proof -
  from assms(2) have t: "takeWhile is_digit rest = []"
    by (cases rest) simp_all
  from assms(2) have d: "dropWhile is_digit rest = rest"
    by (cases rest) simp_all
  from assms(1) t show "takeWhile is_digit (ds @ rest) = ds"
    by (simp add: takeWhile_append2)
  from assms(1) d show "dropWhile is_digit (ds @ rest) = rest"
    by (simp add: dropWhile_append2)
qed

lemma parse_nat_decimal:
  assumes "number_end rest"
  shows "parse_nat (decimal n @ rest) = Some (n, rest)"
proof -
  from assms have e: "rest = [] \<or> \<not> is_digit (hd rest)"
    by (auto simp: number_end_def)
  have tw: "takeWhile is_digit (decimal n @ rest) = decimal n"
    and dw: "dropWhile is_digit (decimal n @ rest) = rest"
    using takeWhile_digits [OF _ e, of "decimal n"] decimal_digits by blast+
  have lead: "\<not> (hd (decimal n) = CHR ''0'' \<and> length (decimal n) > 1)"
    using decimal_no_leading_zero [of n] by auto
  from assms have tail: "\<not> (rest \<noteq> [] \<and>
      (hd rest = CHR ''.'' \<or> hd rest = CHR ''e'' \<or> hd rest = CHR ''E''))"
    by (auto simp: number_end_def)
  show ?thesis
    unfolding parse_nat_def Let_def tw dw
    using lead tail by (simp add: decimal_not_Nil digits_value_decimal)
qed

lemma is_digit_not_minus: "is_digit c \<Longrightarrow> c \<noteq> CHR ''-''"
  by (auto simp: is_digit_def)

lemma decimal_Cons: obtains c cs where "decimal n = c # cs" "is_digit c"
proof -
  obtain c cs where eq: "decimal n = c # cs"
    using decimal_not_Nil [of n] by (cases "decimal n") simp_all
  then have "c \<in> set (decimal n)"
    by simp
  then have "is_digit c"
    by (rule decimal_digits)
  with eq show thesis
    by (rule that)
qed

lemma parse_int_number_toString:
  assumes "number_end rest"
  shows "parse_int (number_toString i @ rest) = Some (i, rest)"
proof (cases "i < 0")
  case True
  then have "number_toString i @ rest = CHR ''-'' # (decimal (nat (- i)) @ rest)"
    by (simp add: number_toString_def)
  with True show ?thesis
    using parse_nat_decimal [OF assms, of "nat (- i)"] by (simp add: parse_int_def)
next
  case False
  obtain c cs where eq: "decimal (nat i) = c # cs" and d: "is_digit c"
    by (rule decimal_Cons)
  from False have s: "number_toString i @ rest = c # (cs @ rest)"
    by (simp add: number_toString_def eq)
  have "parse_nat (c # (cs @ rest)) = Some (nat i, rest)"
    using parse_nat_decimal [OF assms, of "nat i"] by (simp add: eq)
  with False d show ?thesis
    by (simp add: s parse_int_def is_digit_not_minus)
qed

lemma number_toString_start:
  obtains c cs where "number_toString i = c # cs" "c = CHR ''-'' \<or> is_digit c"
proof (cases "i < 0")
  case True
  then have "number_toString i = CHR ''-'' # decimal (nat (- i))"
    by (simp add: number_toString_def)
  then show thesis
    by (rule that) simp
next
  case False
  obtain c cs where eq: "decimal (nat i) = c # cs" and d: "is_digit c"
    by (rule decimal_Cons)
  from False eq have "number_toString i = c # cs"
    by (simp add: number_toString_def)
  with d show thesis
    by (auto intro: that)
qed

lemma value_end_number_end: "value_end rest \<Longrightarrow> number_end rest"
  by (auto simp: value_end_def number_end_def is_digit_def)

lemma skip_ws_Cons: "\<not> json_whitespace c \<Longrightarrow> skip_ws (c # cs) = c # cs"
  by (simp add: skip_ws_def)

lemma skip_ws_delimiters [simp]:
  "skip_ws (CHR '','' # r) = CHR '','' # r"
  "skip_ws (CHR '']'' # r) = CHR '']'' # r"
  "skip_ws (CHR ''}'' # r) = CHR ''}'' # r"
  "skip_ws (CHR '':'' # r) = CHR '':'' # r"
  "skip_ws (CHR 0x22 # r) = CHR 0x22 # r"
  by (simp_all add: skip_ws_def json_whitespace_def)

lemma is_digit_chars:
  "is_digit c \<Longrightarrow> \<not> json_whitespace c \<and> c \<noteq> CHR ''['' \<and> c \<noteq> CHR ''{'' \<and> c \<noteq> CHR 0x22 \<and>
     c \<noteq> CHR '']'' \<and> c \<noteq> CHR ''}''"
  by (auto simp: is_digit_def json_whitespace_def)

lemma parse_value_null: "parse_value (''null'' @ rest) = Some (JNull, rest)"
  by (subst parse_value.simps)
    (simp add: skip_ws_def json_whitespace_def is_digit_def parse_literal_def)

lemma parse_value_true: "parse_value (''true'' @ rest) = Some (JBool True, rest)"
  by (subst parse_value.simps)
    (simp add: skip_ws_def json_whitespace_def is_digit_def parse_literal_def)

lemma parse_value_false: "parse_value (''false'' @ rest) = Some (JBool False, rest)"
  by (subst parse_value.simps)
    (simp add: skip_ws_def json_whitespace_def is_digit_def parse_literal_def)

lemma parse_value_number:
  assumes "c = CHR ''-'' \<or> is_digit c"
  shows "parse_value (c # cs) =
    (case parse_int (c # cs) of None \<Rightarrow> None | Some (i, rest) \<Rightarrow> Some (JNum i, rest))"
proof -
  from assms have c: "\<not> json_whitespace c" "c \<noteq> CHR ''[''" "c \<noteq> CHR ''{''" "c \<noteq> CHR 0x22"
    using is_digit_chars [of c] by (auto simp: json_whitespace_def)
  show ?thesis
    using assms c by (subst parse_value.simps) (simp add: skip_ws_Cons)
qed

lemma parse_value_string:
  "parse_value (CHR 0x22 # cs) =
    (case parse_chars cs of None \<Rightarrow> None | Some (t, rest) \<Rightarrow> Some (JStr t, rest))"
  by (subst parse_value.simps) simp

lemma parse_value_empty_array: "parse_value (CHR ''['' # CHR '']'' # rest) = Some (JArr [], rest)"
  by (subst parse_value.simps) (simp add: skip_ws_def json_whitespace_def)

lemma parse_value_empty_object: "parse_value (CHR ''{'' # CHR ''}'' # rest) = Some (JObj [], rest)"
  by (subst parse_value.simps) (simp add: skip_ws_def json_whitespace_def)

lemma parse_value_array:
  assumes "\<not> json_whitespace d" "d \<noteq> CHR '']''"
  shows "parse_value (CHR ''['' # d # r) =
    (case parse_elements (d # r) of None \<Rightarrow> None | Some (vs, rest) \<Rightarrow> Some (JArr vs, rest))"
  using assms
  by (subst parse_value.simps) (simp add: skip_ws_Cons skip_ws_def json_whitespace_def)

lemma parse_value_object:
  assumes "\<not> json_whitespace d" "d \<noteq> CHR ''}''"
  shows "parse_value (CHR ''{'' # d # r) =
    (case parse_members (d # r) of None \<Rightarrow> None | Some (ms, rest) \<Rightarrow> Some (JObj ms, rest))"
  using assms
  by (subst parse_value.simps) (simp add: skip_ws_Cons skip_ws_def json_whitespace_def)

lemma parse_elements_last:
  "parse_value s = Some (v, CHR '']'' # r) \<Longrightarrow> parse_elements s = Some ([v], r)"
  by (subst parse_elements.simps) simp

lemma parse_elements_more:
  assumes "parse_value s = Some (v, CHR '','' # r)" "length r < length s"
  shows "parse_elements s =
    (case parse_elements r of None \<Rightarrow> None | Some (vs, rest) \<Rightarrow> Some (v # vs, rest))"
  using assms by (subst parse_elements.simps) simp

lemma parse_members_last:
  assumes "parse_chars cs = Some (k, CHR '':'' # r1)" "length r1 < Suc (length cs)"
    "parse_value r1 = Some (v, CHR ''}'' # r3)"
  shows "parse_members (CHR 0x22 # cs) = Some ([(k, v)], r3)"
  using assms by (subst parse_members.simps) simp

lemma parse_members_more:
  assumes "parse_chars cs = Some (k, CHR '':'' # r1)" "length r1 < Suc (length cs)"
    "parse_value r1 = Some (v, CHR '','' # r3)" "length r3 < Suc (length cs)"
  shows "parse_members (CHR 0x22 # cs) =
    (case parse_members r3 of None \<Rightarrow> None | Some (ms, rest) \<Rightarrow> Some ((k, v) # ms, rest))"
  using assms by (subst parse_members.simps) simp

lemma stringify_start:
  obtains c cs where "stringify v = c # cs" "\<not> json_whitespace c" "c \<noteq> CHR '']''"
    "c \<noteq> CHR ''}''"
proof (cases v)
  case JNull
  then have "stringify v = CHR ''n'' # ''ull''" by simp
  then show ?thesis by (rule that) (simp_all add: json_whitespace_def)
next
  case (JBool b)
  show ?thesis
  proof (cases b)
    case True
    with JBool have "stringify v = CHR ''t'' # ''rue''" by simp
    then show ?thesis by (rule that) (simp_all add: json_whitespace_def)
  next
    case False
    with JBool have "stringify v = CHR ''f'' # ''alse''" by simp
    then show ?thesis by (rule that) (simp_all add: json_whitespace_def)
  qed
next
  case (JNum i)
  obtain c cs where eq: "number_toString i = c # cs" and c: "c = CHR ''-'' \<or> is_digit c"
    by (rule number_toString_start)
  from JNum eq have s: "stringify v = c # cs" by simp
  from c have "\<not> json_whitespace c" "c \<noteq> CHR '']''" "c \<noteq> CHR ''}''"
    using is_digit_chars [of c] by (auto simp: json_whitespace_def)
  with s show ?thesis
    by (rule that)
next
  case (JStr s)
  then have "stringify v = CHR 0x22 # (concat (map quote_char s) @ [CHR 0x22])"
    by (simp add: QuoteJSONString_def)
  then show ?thesis by (rule that) (simp_all add: json_whitespace_def)
next
  case (JArr vs)
  then have "stringify v = CHR ''['' # (stringify_elements vs @ '']'')" by simp
  then show ?thesis by (rule that) (simp_all add: json_whitespace_def)
next
  case (JObj ms)
  then have "stringify v = CHR ''{'' # (stringify_members ms @ ''}'')" by simp
  then show ?thesis by (rule that) (simp_all add: json_whitespace_def)
qed

lemma stringify_elements_start:
  assumes "vs \<noteq> []"
  obtains c cs where "stringify_elements vs = c # cs" "\<not> json_whitespace c" "c \<noteq> CHR '']''"
proof -
  from assms obtain v ws where vs: "vs = v # ws"
    by (cases vs) simp_all
  obtain c cs where s: "stringify v = c # cs" and c: "\<not> json_whitespace c" "c \<noteq> CHR '']''"
    by (rule stringify_start)
  have "stringify_elements vs = c # (cs @ (if ws = [] then [] else '','' @ stringify_elements ws))"
    using vs s by (cases ws) simp_all
  then show thesis
    using c by (rule that)
qed

lemma stringify_members_start:
  assumes "ms \<noteq> []"
  obtains cs where "stringify_members ms = CHR 0x22 # cs"
proof -
  from assms obtain k v ns where ms: "ms = (k, v) # ns"
    by (cases ms) auto
  have "stringify_members ms =
      CHR 0x22 # (concat (map quote_char k) @ [CHR 0x22] @ '':'' @ stringify v @
        (if ns = [] then [] else '','' @ stringify_members ns))"
    using ms by (cases ns) (simp_all add: QuoteJSONString_def)
  then show thesis
    by (rule that)
qed


lemma parse_stringify:
  "value_end rest \<Longrightarrow> parse_value (stringify v @ rest) = Some (v, rest)"
  "vs \<noteq> [] \<Longrightarrow> parse_elements (stringify_elements vs @ CHR '']'' # rest1) = Some (vs, rest1)"
  "ms \<noteq> [] \<Longrightarrow> parse_members (stringify_members ms @ CHR ''}'' # rest2) = Some (ms, rest2)"
proof (induction v and vs and ms arbitrary: rest and rest1 and rest2
    rule: stringify_stringify_elements_stringify_members.induct)
  case 1
  show ?case
    using parse_value_null [of rest] by simp
next
  case (2 b)
  show ?case
    using parse_value_true [of rest] parse_value_false [of rest] by (cases b) simp_all
next
  case (3 i)
  obtain c cs where eq: "number_toString i = c # cs" and c: "c = CHR ''-'' \<or> is_digit c"
    by (rule number_toString_start)
  have "parse_int (number_toString i @ rest) = Some (i, rest)"
    using "3.prems" by (intro parse_int_number_toString value_end_number_end)
  then have "parse_int (c # (cs @ rest)) = Some (i, rest)"
    by (simp add: eq)
  then have "parse_value (c # (cs @ rest)) = Some (JNum i, rest)"
    by (simp add: parse_value_number [OF c])
  then show ?case
    by (simp add: eq)
next
  case (4 s)
  show ?case
    by (simp add: QuoteJSONString_def parse_value_string parse_chars_quoted)
next
  case (5 vs)
  show ?case
  proof (cases "vs = []")
    case True
    then show ?thesis
      by (simp add: parse_value_empty_array)
  next
    case False
    then obtain c cs where eq: "stringify_elements vs = c # cs"
      and c: "\<not> json_whitespace c" "c \<noteq> CHR '']''"
      by (rule stringify_elements_start)
    have "parse_elements (c # (cs @ CHR '']'' # rest)) = Some (vs, rest)"
      using "5.IH" [OF False, of rest] by (simp add: eq)
    then have "parse_value (CHR ''['' # c # (cs @ CHR '']'' # rest)) = Some (JArr vs, rest)"
      by (simp add: parse_value_array [OF c])
    then show ?thesis
      by (simp add: eq)
  qed
next
  case (6 ms)
  show ?case
  proof (cases "ms = []")
    case True
    then show ?thesis
      by (simp add: parse_value_empty_object)
  next
    case False
    then obtain cs where eq: "stringify_members ms = CHR 0x22 # cs"
      by (rule stringify_members_start)
    have c: "\<not> json_whitespace (CHR 0x22)" "CHR 0x22 \<noteq> CHR ''}''"
      by (simp_all add: json_whitespace_def)
    have "parse_members (CHR 0x22 # (cs @ CHR ''}'' # rest)) = Some (ms, rest)"
      using "6.IH" [OF False, of rest] by (simp add: eq)
    then have "parse_value (CHR ''{'' # CHR 0x22 # (cs @ CHR ''}'' # rest)) = Some (JObj ms, rest)"
      by (simp add: parse_value_object [OF c])
    then show ?thesis
      by (simp add: eq)
  qed
next
  case 7
  then show ?case by simp
next
  case (8 v)
  have "value_end (CHR '']'' # rest1)"
    by (simp add: value_end_def)
  then have "parse_value (stringify v @ CHR '']'' # rest1) = Some (v, CHR '']'' # rest1)"
    by (rule "8.IH")
  then have "parse_elements (stringify v @ CHR '']'' # rest1) = Some ([v], rest1)"
    by (rule parse_elements_last)
  then show ?case
    by simp
next
  case (9 v w vs)
  let ?r = "stringify_elements (w # vs) @ CHR '']'' # rest1"
  have "value_end (CHR '','' # ?r)"
    by (simp add: value_end_def)
  then have v: "parse_value (stringify v @ CHR '','' # ?r) = Some (v, CHR '','' # ?r)"
    by (rule "9.IH"(1))
  have len: "length ?r < length (stringify v @ CHR '','' # ?r)"
    by simp
  have "parse_elements ?r = Some (w # vs, rest1)"
    by (rule "9.IH"(2)) simp
  then have "parse_elements (stringify v @ CHR '','' # ?r) = Some (v # w # vs, rest1)"
    by (simp add: parse_elements_more [OF v len])
  then show ?case
    by simp
next
  case 10
  then show ?case by simp
next
  case (11 k v)
  let ?r1 = "stringify v @ CHR ''}'' # rest2"
  let ?cs = "concat (map quote_char k) @ CHR 0x22 # CHR '':'' # ?r1"
  have key: "parse_chars ?cs = Some (k, CHR '':'' # ?r1)"
    by (rule parse_chars_quoted)
  have len: "length ?r1 < Suc (length ?cs)"
    by simp
  have "value_end (CHR ''}'' # rest2)"
    by (simp add: value_end_def)
  then have v: "parse_value ?r1 = Some (v, CHR ''}'' # rest2)"
    by (rule "11.IH")
  have "parse_members (CHR 0x22 # ?cs) = Some ([(k, v)], rest2)"
    using key len v by (rule parse_members_last)
  then show ?case
    by (simp add: QuoteJSONString_def)
next
  case (12 k v m ms)
  let ?r3 = "stringify_members (m # ms) @ CHR ''}'' # rest2"
  let ?r1 = "stringify v @ CHR '','' # ?r3"
  let ?cs = "concat (map quote_char k) @ CHR 0x22 # CHR '':'' # ?r1"
  have key: "parse_chars ?cs = Some (k, CHR '':'' # ?r1)"
    by (rule parse_chars_quoted)
  have len1: "length ?r1 < Suc (length ?cs)" and len3: "length ?r3 < Suc (length ?cs)"
    by simp_all
  have "value_end (CHR '','' # ?r3)"
    by (simp add: value_end_def)
  then have v: "parse_value ?r1 = Some (v, CHR '','' # ?r3)"
    by (rule "12.IH"(1))
  have more: "parse_members ?r3 = Some (m # ms, rest2)"
    by (rule "12.IH"(2)) simp
  have "parse_members (CHR 0x22 # ?cs) = Some ((k, v) # m # ms, rest2)"
    using more by (simp add: parse_members_more [OF key len1 v len3])
  then show ?case
    by (simp add: QuoteJSONString_def)
qed

lemma JSON_parse_stringify: "JSON_parse (stringify v) = Some v"
  using parse_stringify(1) [of "[]" v] by (simp add: JSON_parse_def value_end_def skip_ws_def)

lemma result_of_json_of_result: "result_of_json (json_of_result r) = Some r"
  by (simp add: result_of_json_def json_of_result_def get_string_def get_property_def)

lemma item_of_json_of_item: "item_of_json (json_of_item item) = Some item"
proof -
  have "get_property ''result'' 
      [(''id'', JStr (item_id item)), (''originalInput'', JStr (originalInput item)),
       (''result'', json_of_result (result item)), (''timestamp'', JNum (timestamp item))]
    = Some (json_of_result (result item))"
    by (simp add: get_property_def)
  then show ?thesis
    by (simp add: item_of_json_def json_of_item_def get_string_def get_property_def
        result_of_json_of_result)
qed

lemma items_of_json_of_items: "items_of_json (map json_of_item h) = Some h"
  by (induction h) (simp_all add: item_of_json_of_item)

lemma history_of_json_of_history: "history_of_json (json_of_history h) = Some h"
  by (simp add: history_of_json_def json_of_history_def items_of_json_of_items)

lemma stringify_history_not_Nil: "stringify (json_of_history h) \<noteq> []"
  by (simp add: json_of_history_def)

lemma load_save_history: "load_history (save_history h store) = Some h"
  by (simp add: load_history_def save_history_def stringify_history_not_Nil
      JSON_parse_stringify history_of_json_of_history)

lemma save_history_twice: "save_history h (save_history h' store) = save_history h store"
  by (simp add: save_history_def)

lemma initialize_saved: "initialize (save_history h store) = (h, save_history h store)"
  by (simp add: initialize_def Let_def load_save_history save_history_twice)

lemma dom_save_history: "dom (save_history h store) = insert HISTORY_KEY (dom store)"
  by (simp add: save_history_def)

text \<open>
  C8. For every collection of history items, persisting it (the whole collection, as one
  JSON text under the one key \<open>suvarna-history\<close>) and reloading it reproduces the same
  collection: the load effect sets exactly the saved items, with their ids, inputs,
  four-field results and timestamps, and initialization on the saved store ends with
  that history in the state and the same text in the store. The parser reads back every
  JSON value the serializer writes.
\<close>

theorem history_persistence_roundtrip:
  "load_history (save_history h store) = Some h \<and>
   initialize (save_history h store) = (h, save_history h store) \<and>
   JSON_parse (stringify (json_of_history h)) = Some (json_of_history h) \<and>
   history_of_json (json_of_history h) = Some h \<and>
   dom (save_history h store) = insert HISTORY_KEY (dom store) \<and>
   HISTORY_KEY = ''suvarna-history''"
  using load_save_history [of h store] initialize_saved [of h store]
    JSON_parse_stringify [of "json_of_history h"] history_of_json_of_history [of h]
    dom_save_history [of h store] HISTORY_KEY_def
  by blast

end
